theory Spec2Isabelle
  imports Complex_Main "HOL-Library.DAList" "HOL-Library.Char_ord" "HOL-Library.List_Lexorder"
begin

section \<open>Data model of the chart state service\<close>

text \<open>
  The service \<^verbatim>\<open>ChartStateService\<close> keeps the chart in two JavaScript \<^verbatim>\<open>Map\<close>s
  (nodes and node positions, both keyed by strings), a list of drawings, three selection
  fields, the viewport, two history stacks and a clipboard.

  A JavaScript \<^verbatim>\<open>Map\<close> iterates in insertion order, \<^verbatim>\<open>set\<close> on a present key
  replaces the value in place and on an absent key appends. It is modelled by the
  association lists with distinct keys of \<^verbatim>\<open>HOL-Library.DAList\<close>, whose
  \<^const>\<open>DAList.update\<close> behaves in exactly this way. A JavaScript \<^verbatim>\<open>Set\<close> of
  strings is a list in insertion order. Numbers are rationals: the rounding, the
  infinities and the NaN of IEEE doubles are outside the model. An optional field is
  an \<open>option\<close>, \<open>None\<close> standing for an absent key as well as for
  \<^verbatim>\<open>undefined\<close>.
\<close>

datatype node_type = Executive | Manager | Employee | Note | Shape | Group | TextNode

datatype shape_type = Rectangle | Circle | Triangle | Star | Diamond

datatype text_align = AlignLeft | AlignCenter | AlignRight

datatype avatar_type = AvatarImage | AvatarIcon

text \<open>The presentational fields of \<^verbatim>\<open>ChartNode\<close>, which no operation of the
  service reads.\<close>

record NodeStyle =
  shapeType :: "shape_type option"
  borderRadius :: "rat option"
  fontSize :: "rat option"
  fontFamily :: "string option"
  fontWeight :: "string option"
  fontStyle :: "string option"
  textDecoration :: "string option"
  textAlign :: "text_align option"
  avatarType :: avatar_type
  avatarImage :: "string option"
  avatarIcon :: "string option"
  backgroundColor :: "string option"
  nameColor :: "string option"
  roleColor :: "string option"
  departmentColor :: "string option"
  borderColor :: "string option"
  borderWidth :: "rat option"

text \<open>\<^verbatim>\<open>ChartNode\<close>: the fields the service computes with, and the style. The field
  \<^verbatim>\<open>id\<close> is \<open>node_id\<close> and \<^verbatim>\<open>type\<close> is \<open>ntype\<close> here.\<close>

record ChartNode =
  node_id :: string
  name :: string
  role :: string
  department :: "string option"
  ntype :: node_type
  level :: "string option"
  children :: "string list option"
  style :: NodeStyle

text \<open>\<^verbatim>\<open>NodePosition\<close>; the fields \<^verbatim>\<open>x\<close> and \<^verbatim>\<open>y\<close> are \<open>pos_x\<close> and
  \<open>pos_y\<close>.\<close>

record NodePosition =
  pos_x :: rat
  pos_y :: rat
  width :: "rat option"
  height :: "rat option"

record Drawing =
  drawing_id :: string
  path :: string
  color :: string
  strokeWidth :: rat

text \<open>\<^verbatim>\<open>ClipboardItem\<close> is a tagged record: the tag \<^verbatim>\<open>type\<close> decides what
  \<^verbatim>\<open>data\<close> holds; the four numbers are \<^verbatim>\<open>x\<close>, \<^verbatim>\<open>y\<close>, \<^verbatim>\<open>width\<close> and
  \<^verbatim>\<open>height\<close>.\<close>

datatype ClipboardItem =
  NodeItem ChartNode rat rat rat rat
| DrawingItem Drawing rat rat rat rat

text \<open>\<^verbatim>\<open>HistorySnapshot\<close> holds the two maps as arrays of entries.\<close>

record HistorySnapshot =
  snap_nodes :: "(string \<times> ChartNode) list"
  snap_positions :: "(string \<times> NodePosition) list"
  snap_drawings :: "Drawing list"

record ChartState =
  nodes :: "(string, ChartNode) alist"
  nodePositions :: "(string, NodePosition) alist"
  drawings :: "Drawing list"
  selectedNodeIds :: "string list"
  selectedDrawingIds :: "string list"
  selectedEdgeId :: "string option"
  zoomLevel :: rat
  panOffset :: "rat \<times> rat"
  isDarkMode :: bool
  undoStack :: "HistorySnapshot list"
  redoStack :: "HistorySnapshot list"
  clipboard :: "ClipboardItem list"

definition maxHistorySize :: nat where
  "maxHistorySize = 50"

subsection \<open>Maps and sets of JavaScript\<close>

text \<open>\<^verbatim>\<open>new Map(entries)\<close>: the entries are set one after the other.\<close>

definition mapFromEntries :: "(string \<times> 'v) list \<Rightarrow> (string, 'v) alist" where
  "mapFromEntries es = foldl (\<lambda>m (k, v). DAList.update k v m) DAList.empty es"

text \<open>\<^verbatim>\<open>map.keys()\<close>, \<^verbatim>\<open>map.values()\<close>, \<^verbatim>\<open>map.has(k)\<close>.\<close>

definition mapKeys :: "(string, 'v) alist \<Rightarrow> string list" where
  "mapKeys m = map fst (DAList.impl_of m)"

definition mapValues :: "(string, 'v) alist \<Rightarrow> 'v list" where
  "mapValues m = map snd (DAList.impl_of m)"

definition mapHas :: "(string, 'v) alist \<Rightarrow> string \<Rightarrow> bool" where
  "mapHas m k = (DAList.lookup m k \<noteq> None)"

text \<open>\<^verbatim>\<open>set.add(x)\<close> on a set kept in insertion order.\<close>

definition setAdd :: "string list \<Rightarrow> string \<Rightarrow> string list" where
  "setAdd xs x = (if x \<in> set xs then xs else xs @ [x])"

section \<open>History\<close>

text \<open>
  \<^verbatim>\<open>saveHistory\<close> copies the state through \<^verbatim>\<open>JSON.parse(JSON.stringify(...))\<close>;
  values have no identity here, so the copy is the value itself. The stacks grow at the
  end of the list: \<^verbatim>\<open>push\<close> appends, \<^verbatim>\<open>pop\<close> takes the last element and
  \<^verbatim>\<open>shift\<close> drops the first.
\<close>

definition currentSnapshot :: "ChartState \<Rightarrow> HistorySnapshot" where
  "currentSnapshot s =
     \<lparr>snap_nodes = DAList.impl_of (nodes s),
      snap_positions = DAList.impl_of (nodePositions s),
      snap_drawings = drawings s\<rparr>"

definition saveHistory :: "ChartState \<Rightarrow> ChartState" where
  "saveHistory s =
     (let pushed = undoStack s @ [currentSnapshot s];
          bounded = (if length pushed > maxHistorySize then tl pushed else pushed)
      in s\<lparr>undoStack := bounded, redoStack := []\<rparr>)"

definition clearSelection :: "ChartState \<Rightarrow> ChartState" where
  "clearSelection s = s\<lparr>selectedNodeIds := [], selectedDrawingIds := [], selectedEdgeId := None\<rparr>"

definition applySnapshot :: "HistorySnapshot \<Rightarrow> ChartState \<Rightarrow> ChartState" where
  "applySnapshot snapshot s =
     clearSelection
       (s\<lparr>nodes := mapFromEntries (snap_nodes snapshot),
          nodePositions := mapFromEntries (snap_positions snapshot),
          drawings := snap_drawings snapshot\<rparr>)"

definition undo :: "ChartState \<Rightarrow> ChartState" where
  "undo s =
     (if undoStack s = [] then s
      else
        let s1 = s\<lparr>redoStack := redoStack s @ [currentSnapshot s]\<rparr>;
            prevSnapshot = last (undoStack s1);
            s2 = s1\<lparr>undoStack := butlast (undoStack s1)\<rparr>
        in applySnapshot prevSnapshot s2)"

definition redo :: "ChartState \<Rightarrow> ChartState" where
  "redo s =
     (if redoStack s = [] then s
      else
        let s1 = s\<lparr>undoStack := undoStack s @ [currentSnapshot s]\<rparr>;
            nextSnapshot = last (redoStack s1);
            s2 = s1\<lparr>redoStack := butlast (redoStack s1)\<rparr>
        in applySnapshot nextSnapshot s2)"

section \<open>Import\<close>

text \<open>
  \<^verbatim>\<open>importFromJson(data: any)\<close> reads a parsed JSON value. What the function looks
  at is modelled: whether \<^verbatim>\<open>data\<close> is falsy, whether \<^verbatim>\<open>data.nodes\<close> and
  \<^verbatim>\<open>data.positions\<close> are arrays, and, for the \<^verbatim>\<open>Map\<close> constructor, whether each
  element of such an array is an object (a key and value pair) or a primitive, on which
  the constructor throws a \<^verbatim>\<open>TypeError\<close>. \<^verbatim>\<open>data.drawings\<close> is used when it is an
  array and replaced by the empty list otherwise.
\<close>

datatype 'v import_entry = EntryPair string 'v | EntryPrimitive

datatype 'v import_field = NotAnArray | EntryArray "'v import_entry list"

datatype import_data =
  FalsyData
| ImportData "ChartNode import_field" "NodePosition import_field" "Drawing list option"

datatype import_outcome = ImportRejected | ImportApplied | ImportRolledBack

text \<open>The \<^verbatim>\<open>Map\<close> constructor on an array of the payload: \<open>None\<close> when it throws.\<close>

fun entriesOf :: "'v import_entry list \<Rightarrow> (string \<times> 'v) list option" where
  "entriesOf [] = Some []"
| "entriesOf (EntryPrimitive # es) = None"
| "entriesOf (EntryPair k v # es) =
     (case entriesOf es of None \<Rightarrow> None | Some r \<Rightarrow> Some ((k, v) # r))"

definition mapFromImport :: "'v import_entry list \<Rightarrow> (string, 'v) alist option" where
  "mapFromImport es = map_option mapFromEntries (entriesOf es)"

text \<open>The \<^verbatim>\<open>catch\<close> block: undo, then drop the redo stack.\<close>

definition importRollback :: "ChartState \<Rightarrow> ChartState" where
  "importRollback s = (undo s)\<lparr>redoStack := []\<rparr>"

text \<open>The result pairs the outcome with the state the call leaves: a rejected import
  throws before anything is written.\<close>

fun importFromJson :: "import_data \<Rightarrow> ChartState \<Rightarrow> import_outcome \<times> ChartState" where
  "importFromJson FalsyData s = (ImportRejected, s)"
| "importFromJson (ImportData NotAnArray ps ds) s = (ImportRejected, s)"
| "importFromJson (ImportData (EntryArray ns) NotAnArray ds) s = (ImportRejected, s)"
| "importFromJson (ImportData (EntryArray ns) (EntryArray ps) ds) s =
     (let s1 = saveHistory s in
      case mapFromImport ns of
        None \<Rightarrow> (ImportRolledBack, importRollback s1)
      | Some newNodes \<Rightarrow>
          (case mapFromImport ps of
             None \<Rightarrow> (ImportRolledBack, importRollback s1)
           | Some newPositions \<Rightarrow>
               (ImportApplied,
                clearSelection
                  (s1\<lparr>nodes := newNodes,
                      nodePositions := newPositions,
                      drawings := (case ds of None \<Rightarrow> [] | Some d \<Rightarrow> d)\<rparr>))))"

section \<open>Topology\<close>

text \<open>\<^verbatim>\<open>node.children || []\<close>.\<close>

definition childList :: "ChartNode \<Rightarrow> string list" where
  "childList node = (case children node of None \<Rightarrow> [] | Some cs \<Rightarrow> cs)"

text \<open>
  \<^verbatim>\<open>removeFromParent(map, childId)\<close> runs \<^verbatim>\<open>map.forEach\<close> and writes into the map it
  iterates. The iteration visits the keys the map has at the start, in order, and reads
  the value each key holds when it is reached. (An entry the loop appends, which happens
  only when a node is stored under a key other than its \<^verbatim>\<open>id\<close>, is visited too, but
  its children no longer include \<^verbatim>\<open>childId\<close>, so nothing is written for it.)
\<close>

definition removeFromParentStep :: "string \<Rightarrow> (string, ChartNode) alist \<Rightarrow> string \<Rightarrow> (string, ChartNode) alist" where
  "removeFromParentStep childId m k =
     (case DAList.lookup m k of
        None \<Rightarrow> m
      | Some node \<Rightarrow>
          if childId \<in> set (childList node)
          then DAList.update (node_id node)
                 (node\<lparr>children := Some (filter (\<lambda>c. c \<noteq> childId) (childList node))\<rparr>) m
          else m)"

definition removeFromParent :: "string \<Rightarrow> (string, ChartNode) alist \<Rightarrow> (string, ChartNode) alist" where
  "removeFromParent childId m = foldl (removeFromParentStep childId) m (mapKeys m)"

text \<open>
  \<^verbatim>\<open>isDescendant(rootId, searchId)\<close> recurses into the children of every node it
  meets and does not return on a cyclic adjacency. The first argument bounds the depth of
  the recursion; \<open>None\<close> says that the bound was reached.
\<close>

fun isDescendant :: "nat \<Rightarrow> (string, ChartNode) alist \<Rightarrow> string \<Rightarrow> string \<Rightarrow> bool option"
  and isDescendantLoop :: "nat \<Rightarrow> (string, ChartNode) alist \<Rightarrow> string list \<Rightarrow> string \<Rightarrow> bool option"
where
  "isDescendant 0 m rootId searchId = None"
| "isDescendant (Suc n) m rootId searchId =
     (case DAList.lookup m rootId of
        None \<Rightarrow> Some False
      | Some node \<Rightarrow>
          (case children node of
             None \<Rightarrow> Some False
           | Some cs \<Rightarrow> isDescendantLoop n m cs searchId))"
| "isDescendantLoop n m [] searchId = Some False"
| "isDescendantLoop n m (childId # cs) searchId =
     (if childId = searchId then Some True
      else
        (case isDescendant n m childId searchId of
           None \<Rightarrow> None
         | Some True \<Rightarrow> Some True
         | Some False \<Rightarrow> isDescendantLoop n m cs searchId))"

text \<open>The update of the node map inside \<^verbatim>\<open>linkNodes\<close>: \<^verbatim>\<open>node\<close> is read before
  \<^verbatim>\<open>removeFromParent\<close> runs.\<close>

definition linkInMap :: "string \<Rightarrow> string \<Rightarrow> (string, ChartNode) alist \<Rightarrow> (string, ChartNode) alist" where
  "linkInMap sourceId targetId m =
     (case DAList.lookup m sourceId of
        None \<Rightarrow> m
      | Some node \<Rightarrow>
          DAList.update sourceId (node\<lparr>children := Some (childList node @ [targetId])\<rparr>)
            (removeFromParent targetId m))"

definition linkNodes :: "nat \<Rightarrow> string \<Rightarrow> string \<Rightarrow> ChartState \<Rightarrow> ChartState option" where
  "linkNodes fuel sourceId targetId s =
     (if sourceId = targetId then Some s
      else if (case DAList.lookup (nodes s) sourceId of
                 None \<Rightarrow> False
               | Some source \<Rightarrow> targetId \<in> set (childList source))
      then Some s
      else
        (case isDescendant fuel (nodes s) targetId sourceId of
           None \<Rightarrow> None
         | Some True \<Rightarrow> Some s
         | Some False \<Rightarrow>
             (let s1 = saveHistory s
              in Some (s1\<lparr>nodes := linkInMap sourceId targetId (nodes s1)\<rparr>))))"

definition unlinkEdge :: "string \<Rightarrow> string \<Rightarrow> ChartState \<Rightarrow> ChartState" where
  "unlinkEdge sourceId targetId s =
     s\<lparr>nodes :=
        (case DAList.lookup (nodes s) sourceId of
           None \<Rightarrow> nodes s
         | Some node \<Rightarrow>
             (case children node of
                None \<Rightarrow> nodes s
              | Some cs \<Rightarrow>
                  DAList.update sourceId
                    (node\<lparr>children := Some (filter (\<lambda>c. c \<noteq> targetId) cs)\<rparr>) (nodes s)))\<rparr>"

text \<open>The computed signal \<^verbatim>\<open>edges\<close>: triples of edge id, source id and target id.\<close>

definition edges :: "ChartState \<Rightarrow> (string \<times> string \<times> string) list" where
  "edges s =
     concat (map (\<lambda>node.
        map (\<lambda>childId. (node_id node @ ''-'' @ childId, node_id node, childId))
          (filter (mapHas (nodes s)) (childList node)))
        (mapValues (nodes s)))"

definition deleteSelectedEdge :: "ChartState \<Rightarrow> ChartState" where
  "deleteSelectedEdge s =
     (case selectedEdgeId s of
        None \<Rightarrow> s
      | Some edgeId \<Rightarrow>
          if edgeId = [] then s
          else
            (case find (\<lambda>e. fst e = edgeId) (edges s) of
               None \<Rightarrow> s
             | Some (eid, sourceId, targetId) \<Rightarrow>
                 (unlinkEdge sourceId targetId (saveHistory s))\<lparr>selectedEdgeId := None\<rparr>))"

section \<open>Node actions and selection\<close>

text \<open>\<^verbatim>\<open>v || d\<close> on an optional number: the default replaces an absent value and zero.\<close>

definition orDefault :: "rat option \<Rightarrow> rat \<Rightarrow> rat" where
  "orDefault v d = (case v of None \<Rightarrow> d | Some w \<Rightarrow> if w = 0 then d else w)"

definition updateNodePosition :: "string \<Rightarrow> rat \<Rightarrow> rat \<Rightarrow> ChartState \<Rightarrow> ChartState" where
  "updateNodePosition i x y s =
     s\<lparr>nodePositions :=
        DAList.update i
          (case DAList.lookup (nodePositions s) i of
             None \<Rightarrow> \<lparr>pos_x = x, pos_y = y, width = None, height = None\<rparr>
           | Some current \<Rightarrow> current\<lparr>pos_x := x, pos_y := y\<rparr>)
          (nodePositions s)\<rparr>"

definition updateNodeDimensions :: "string \<Rightarrow> rat \<Rightarrow> rat \<Rightarrow> ChartState \<Rightarrow> ChartState" where
  "updateNodeDimensions i w h s =
     s\<lparr>nodePositions :=
        (case DAList.lookup (nodePositions s) i of
           Some current \<Rightarrow>
             if \<bar>orDefault (width current) 208 - w\<bar> > 1 \<or> \<bar>orDefault (height current) 100 - h\<bar> > 1
             then DAList.update i (current\<lparr>width := Some w, height := Some h\<rparr>) (nodePositions s)
             else nodePositions s
         | None \<Rightarrow>
             DAList.update i \<lparr>pos_x = 0, pos_y = 0, width = Some w, height = Some h\<rparr>
               (nodePositions s))\<rparr>"

definition toggleIn :: "bool \<Rightarrow> string list \<Rightarrow> string \<Rightarrow> string list" where
  "toggleIn multi current i =
     (let newSet = (if multi then current else [])
      in if multi \<and> i \<in> set newSet then filter (\<lambda>x. x \<noteq> i) newSet else setAdd newSet i)"

definition selectNode :: "string \<Rightarrow> bool \<Rightarrow> ChartState \<Rightarrow> ChartState" where
  "selectNode i multi s =
     (let s1 = s\<lparr>selectedEdgeId := None,
                  selectedNodeIds := toggleIn multi (selectedNodeIds s) i\<rparr>
      in if \<not> multi then s1\<lparr>selectedDrawingIds := []\<rparr> else s1)"

definition selectDrawing :: "string \<Rightarrow> bool \<Rightarrow> ChartState \<Rightarrow> ChartState" where
  "selectDrawing i multi s =
     (let s1 = s\<lparr>selectedEdgeId := None,
                  selectedDrawingIds := toggleIn multi (selectedDrawingIds s) i\<rparr>
      in if \<not> multi then s1\<lparr>selectedNodeIds := []\<rparr> else s1)"

definition selectAll :: "ChartState \<Rightarrow> ChartState" where
  "selectAll s =
     s\<lparr>selectedNodeIds := foldl setAdd [] (mapKeys (nodes s)),
       selectedDrawingIds := foldl setAdd [] (map drawing_id (drawings s)),
       selectedEdgeId := None\<rparr>"

definition selectEdge :: "string \<Rightarrow> ChartState \<Rightarrow> ChartState" where
  "selectEdge i s = s\<lparr>selectedNodeIds := [], selectedDrawingIds := [], selectedEdgeId := Some i\<rparr>"

text \<open>
  \<^verbatim>\<open>Partial<ChartNode>\<close>: for each field, \<open>None\<close> when the key is absent and the
  new value otherwise (itself an option for an optional field). The keys of the
  presentational fields act on the style alone and are kept as one function.
\<close>

record PartialNode =
  p_node_id :: "string option"
  p_name :: "string option"
  p_role :: "string option"
  p_department :: "string option option"
  p_ntype :: "node_type option"
  p_level :: "string option option"
  p_children :: "string list option option"
  p_style :: "NodeStyle \<Rightarrow> NodeStyle"

text \<open>\<^verbatim>\<open>{ ...node, ...updatedNode }\<close>.\<close>

definition spread :: "'a \<Rightarrow> 'a option \<Rightarrow> 'a" where
  "spread old new = (case new of None \<Rightarrow> old | Some v \<Rightarrow> v)"

definition mergeNode :: "ChartNode \<Rightarrow> PartialNode \<Rightarrow> ChartNode" where
  "mergeNode node upd =
     \<lparr>node_id = spread (node_id node) (p_node_id upd),
      name = spread (name node) (p_name upd),
      role = spread (role node) (p_role upd),
      department = spread (department node) (p_department upd),
      ntype = spread (ntype node) (p_ntype upd),
      level = spread (level node) (p_level upd),
      children = spread (children node) (p_children upd),
      style = p_style upd (style node)\<rparr>"

definition emptyPartial :: PartialNode where
  "emptyPartial =
     \<lparr>p_node_id = None, p_name = None, p_role = None, p_department = None,
      p_ntype = None, p_level = None, p_children = None, p_style = (\<lambda>st. st)\<rparr>"

text \<open>The rename propagation of \<^verbatim>\<open>updateNode\<close>: a \<^verbatim>\<open>forEach\<close> over the map that is
  being written, as in \<^verbatim>\<open>removeFromParent\<close>.\<close>

definition renameStep :: "string \<Rightarrow> string \<Rightarrow> (string, ChartNode) alist \<Rightarrow> string \<Rightarrow> (string, ChartNode) alist" where
  "renameStep oldName newName m k =
     (case DAList.lookup m k of
        None \<Rightarrow> m
      | Some otherNode \<Rightarrow>
          if department otherNode = Some oldName
          then DAList.update (node_id otherNode) (otherNode\<lparr>department := Some newName\<rparr>) m
          else m)"

definition renameMembers :: "string \<Rightarrow> string \<Rightarrow> (string, ChartNode) alist \<Rightarrow> (string, ChartNode) alist" where
  "renameMembers oldName newName m = foldl (renameStep oldName newName) m (mapKeys m)"

definition updateNodeStep :: "PartialNode \<Rightarrow> (string, ChartNode) alist \<Rightarrow> string \<Rightarrow> (string, ChartNode) alist" where
  "updateNodeStep upd m i =
     (case DAList.lookup m i of
        None \<Rightarrow> m
      | Some node \<Rightarrow>
          (let m1 =
             (case p_name upd of
                None \<Rightarrow> m
              | Some newName \<Rightarrow>
                  if ntype node = Group \<and> newName \<noteq> [] \<and> name node \<noteq> newName
                  then renameMembers (name node) newName m
                  else m)
           in DAList.update i (mergeNode node upd) m1))"

definition updateNode :: "PartialNode \<Rightarrow> ChartState \<Rightarrow> ChartState" where
  "updateNode upd s =
     (if selectedNodeIds s = [] then s
      else s\<lparr>nodes := foldl (updateNodeStep upd) (nodes s) (selectedNodeIds s)\<rparr>)"

section \<open>Group membership\<close>

record Rect =
  rx :: rat
  ry :: rat
  rw :: rat
  rh :: rat

definition getOverlapArea :: "Rect \<Rightarrow> Rect \<Rightarrow> rat" where
  "getOverlapArea r1 r2 =
     (let overlapLeft = max (rx r1) (rx r2);
          overlapRight = min (rx r1 + rw r1) (rx r2 + rw r2);
          overlapTop = max (ry r1) (ry r2);
          overlapBottom = min (ry r1 + rh r1) (ry r2 + rh r2)
      in if overlapLeft < overlapRight \<and> overlapTop < overlapBottom
         then (overlapRight - overlapLeft) * (overlapBottom - overlapTop)
         else 0)"

definition functional :: "node_type \<Rightarrow> bool" where
  "functional t = (t = Executive \<or> t = Manager \<or> t = Employee)"

text \<open>The rectangle of a node (default size 208 by 100) and of a group (300 by 300).\<close>

definition nodeRect :: "NodePosition \<Rightarrow> Rect" where
  "nodeRect pos =
     \<lparr>rx = pos_x pos, ry = pos_y pos,
      rw = orDefault (width pos) 208, rh = orDefault (height pos) 100\<rparr>"

definition groupRect :: "NodePosition \<Rightarrow> Rect" where
  "groupRect pos =
     \<lparr>rx = pos_x pos, ry = pos_y pos,
      rw = orDefault (width pos) 300, rh = orDefault (height pos) 300\<rparr>"

definition groupMembershipStep ::
  "string \<Rightarrow> ChartNode \<Rightarrow> Rect \<Rightarrow> (string, NodePosition) alist \<Rightarrow>
   (string, ChartNode) alist \<Rightarrow> string \<Rightarrow> (string, ChartNode) alist" where
  "groupMembershipStep groupId groupNode gRect positions m k =
     (case DAList.lookup m k of
        None \<Rightarrow> m
      | Some node \<Rightarrow>
          if functional (ntype node) \<and> node_id node \<noteq> groupId then
            (case DAList.lookup positions (node_id node) of
               None \<Rightarrow> m
             | Some pos \<Rightarrow>
                 if getOverlapArea gRect (nodeRect pos) > 0 then
                   (if department node \<noteq> Some (name groupNode)
                    then DAList.update (node_id node)
                           (node\<lparr>department := Some (name groupNode)\<rparr>) m
                    else m)
                 else if department node = Some (name groupNode)
                 then DAList.update (node_id node) (node\<lparr>department := Some []\<rparr>) m
                 else m)
          else m)"

definition updateGroupMembership :: "string \<Rightarrow> ChartState \<Rightarrow> ChartState" where
  "updateGroupMembership groupId s =
     (case (DAList.lookup (nodes s) groupId, DAList.lookup (nodePositions s) groupId) of
        (Some groupNode, Some groupPos) \<Rightarrow>
          if ntype groupNode \<noteq> Group then s
          else
            s\<lparr>nodes :=
               foldl (groupMembershipStep groupId groupNode (groupRect groupPos) (nodePositions s))
                 (nodes s) (mapKeys (nodes s))\<rparr>
      | _ \<Rightarrow> s)"

text \<open>
  The search of \<^verbatim>\<open>updateNodeMembership\<close>: the accumulator is
  \<^verbatim>\<open>(bestGroup, maxOverlap)\<close>, and a group replaces the best one only when its overlap
  is strictly larger.
\<close>

definition bestGroupStep ::
  "string \<Rightarrow> Rect \<Rightarrow> (string, NodePosition) alist \<Rightarrow>
   ChartNode option \<times> rat \<Rightarrow> ChartNode \<Rightarrow> ChartNode option \<times> rat" where
  "bestGroupStep nodeId nRect positions acc gNode =
     (if ntype gNode = Group \<and> node_id gNode \<noteq> nodeId then
        (case DAList.lookup positions (node_id gNode) of
           None \<Rightarrow> acc
         | Some gPos \<Rightarrow>
             (let overlap = getOverlapArea nRect (groupRect gPos)
              in if overlap > snd acc then (Some gNode, overlap) else acc))
      else acc)"

definition findBestGroup ::
  "string \<Rightarrow> Rect \<Rightarrow> (string, NodePosition) alist \<Rightarrow> (string, ChartNode) alist \<Rightarrow>
   ChartNode option \<times> rat" where
  "findBestGroup nodeId nRect positions m =
     foldl (bestGroupStep nodeId nRect positions) (None, 0) (mapValues m)"

definition updateNodeMembership :: "string \<Rightarrow> ChartState \<Rightarrow> ChartState" where
  "updateNodeMembership nodeId s =
     (case (DAList.lookup (nodes s) nodeId, DAList.lookup (nodePositions s) nodeId) of
        (Some node, Some pos) \<Rightarrow>
          if \<not> functional (ntype node) then s
          else
            (case fst (findBestGroup nodeId (nodeRect pos) (nodePositions s) (nodes s)) of
               Some bestGroup \<Rightarrow>
                 if department node \<noteq> Some (name bestGroup)
                 then s\<lparr>nodes := DAList.update nodeId
                                   (node\<lparr>department := Some (name bestGroup)\<rparr>) (nodes s)\<rparr>
                 else s
             | None \<Rightarrow>
                 if department node \<noteq> None \<and> department node \<noteq> Some []
                 then s\<lparr>nodes := DAList.update nodeId (node\<lparr>department := Some []\<rparr>) (nodes s)\<rparr>
                 else s)
      | _ \<Rightarrow> s)"

section \<open>Deleting\<close>

definition deleteSelection :: "ChartState \<Rightarrow> ChartState" where
  "deleteSelection s =
     (let nodeIds = selectedNodeIds s; drawingIds = selectedDrawingIds s
      in if nodeIds = [] \<and> drawingIds = [] then s
         else
           (let s1 = saveHistory s;
                s2 = (if nodeIds \<noteq> [] then
                        s1\<lparr>nodes :=
                             foldl (\<lambda>m idToDelete. DAList.delete idToDelete (removeFromParent idToDelete m))
                               (nodes s1) nodeIds,
                           nodePositions :=
                             foldl (\<lambda>m i. DAList.delete i m) (nodePositions s1) nodeIds\<rparr>
                      else s1);
                s3 = (if drawingIds \<noteq> [] then
                        s2\<lparr>drawings := filter (\<lambda>d. drawing_id d \<notin> set drawingIds) (drawings s2)\<rparr>
                      else s2)
            in s3\<lparr>selectedNodeIds := [], selectedDrawingIds := []\<rparr>))"

definition deleteDrawing :: "string \<Rightarrow> ChartState \<Rightarrow> ChartState" where
  "deleteDrawing i s =
     (let s1 = saveHistory s
      in s1\<lparr>drawings := filter (\<lambda>d. drawing_id d \<noteq> i) (drawings s1),
            selectedDrawingIds := filter (\<lambda>x. x \<noteq> i) (selectedDrawingIds s1)\<rparr>)"

section \<open>Clipboard\<close>

text \<open>
  The two path utilities \<^verbatim>\<open>getDrawingBounds\<close> and \<^verbatim>\<open>shiftPath\<close> parse SVG path
  strings with regular expressions and floating-point formatting. The clipboard takes
  them as parameters: \<open>bounds\<close> gives \<^verbatim>\<open>(x, y, w, h)\<close> of a path and \<open>shift\<close>
  the translated path.
\<close>

definition copySelection :: "(string \<Rightarrow> rat \<times> rat \<times> rat \<times> rat) \<Rightarrow> ChartState \<Rightarrow> ChartState" where
  "copySelection bounds s =
     (if selectedNodeIds s = [] \<and> selectedDrawingIds s = [] then s
      else
        s\<lparr>clipboard :=
           concat (map (\<lambda>i.
             (case (DAList.lookup (nodes s) i, DAList.lookup (nodePositions s) i) of
                (Some node, Some pos) \<Rightarrow>
                  [NodeItem node (pos_x pos) (pos_y pos)
                     (orDefault (width pos) 208) (orDefault (height pos) 100)]
              | _ \<Rightarrow> [])) (selectedNodeIds s))
           @ concat (map (\<lambda>i.
             (case find (\<lambda>d. drawing_id d = i) (drawings s) of
                None \<Rightarrow> []
              | Some drawing \<Rightarrow>
                  (case bounds (path drawing) of
                     (bx, by, bw, bh) \<Rightarrow> [DrawingItem drawing bx by bw bh])))
             (selectedDrawingIds s))\<rparr>)"

fun itemX :: "ClipboardItem \<Rightarrow> rat" where
  "itemX (NodeItem n x y w h) = x"
| "itemX (DrawingItem d x y w h) = x"

fun itemY :: "ClipboardItem \<Rightarrow> rat" where
  "itemY (NodeItem n x y w h) = y"
| "itemY (DrawingItem d x y w h) = y"

text \<open>The minimum search \<^verbatim>\<open>if (v < min) min = v\<close>, started at \<^verbatim>\<open>Infinity\<close>: the
  first value always replaces it.\<close>

fun minFrom :: "rat list \<Rightarrow> rat option" where
  "minFrom [] = None"
| "minFrom (v # vs) = Some (foldl (\<lambda>m x. if x < m then x else m) v vs)"

text \<open>
  The first pass of \<^verbatim>\<open>pasteNodes\<close>. Each clipboard item draws one identifier from
  \<^verbatim>\<open>Math.random()\<close>; the draws are the parameter \<open>gen\<close>, indexed by the position
  of the item. The pass returns \<^verbatim>\<open>idMap\<close>, \<^verbatim>\<open>newItems\<close> and \<^verbatim>\<open>newDrawings\<close>.
\<close>

type_synonym paste_acc =
  "(string, string) alist \<times> (ChartNode \<times> NodePosition) list \<times> Drawing list"

definition pasteFirstPass ::
  "(string \<Rightarrow> rat \<Rightarrow> rat \<Rightarrow> string) \<Rightarrow> rat \<Rightarrow> rat \<Rightarrow> rat \<Rightarrow> rat \<Rightarrow>
   paste_acc \<Rightarrow> ClipboardItem \<times> string \<Rightarrow> paste_acc" where
  "pasteFirstPass shift targetX targetY minX minY acc entry =
     (case acc of (idMap, newItems, newDrawings) \<Rightarrow>
        (case entry of
           (NodeItem nodeData x y w h, newId) \<Rightarrow>
             (DAList.update (node_id nodeData) newId idMap,
              newItems @
                [(nodeData\<lparr>node_id := newId\<rparr>,
                  \<lparr>pos_x = targetX + (x - minX), pos_y = targetY + (y - minY),
                   width = Some w, height = Some h\<rparr>)],
              newDrawings)
         | (DrawingItem drawingData x y w h, newId) \<Rightarrow>
             (idMap, newItems,
              newDrawings @
                [drawingData\<lparr>drawing_id := newId,
                   path := shift (path drawingData)
                             ((targetX + (x - minX)) - x) ((targetY + (y - minY)) - y)\<rparr>])))"

text \<open>The second pass rewrites the children of a pasted node that has any.\<close>

definition remapChildren :: "(string, string) alist \<Rightarrow> ChartNode \<Rightarrow> ChartNode" where
  "remapChildren idMap node =
     (case children node of
        None \<Rightarrow> node
      | Some cs \<Rightarrow>
          if cs = [] then node
          else node\<lparr>children :=
                 Some (concat (map (\<lambda>childId.
                   (case DAList.lookup idMap childId of None \<Rightarrow> [] | Some n \<Rightarrow> [n])) cs))\<rparr>)"

definition pasteNodes ::
  "(nat \<Rightarrow> string) \<Rightarrow> (string \<Rightarrow> rat \<Rightarrow> rat \<Rightarrow> string) \<Rightarrow> rat \<Rightarrow> rat \<Rightarrow>
   ChartState \<Rightarrow> ChartState" where
  "pasteNodes gen shift targetX targetY s =
     (case (minFrom (map itemX (clipboard s)), minFrom (map itemY (clipboard s))) of
        (Some minX, Some minY) \<Rightarrow>
          (let s1 = saveHistory s;
               ids = map gen [0 ..< length (clipboard s1)];
               (idMap, firstItems, newDrawings) =
                 foldl (pasteFirstPass shift targetX targetY minX minY)
                   (DAList.empty, [], []) (zip (clipboard s1) ids);
               newItems = map (\<lambda>(node, pos). (remapChildren idMap node, pos)) firstItems;
               s2 = (if newItems \<noteq> [] then
                       s1\<lparr>nodes := foldl (\<lambda>m (node, pos). DAList.update (node_id node) node m)
                                     (nodes s1) newItems,
                          nodePositions := foldl (\<lambda>m (node, pos). DAList.update (node_id node) pos m)
                                     (nodePositions s1) newItems\<rparr>
                     else s1);
               s3 = (if newDrawings \<noteq> [] then s2\<lparr>drawings := drawings s2 @ newDrawings\<rparr> else s2);
               s4 = s3\<lparr>selectedNodeIds := foldl setAdd [] (map (\<lambda>(node, pos). node_id node) newItems),
                       selectedDrawingIds := foldl setAdd [] (map drawing_id newDrawings)\<rparr>
           in foldl (\<lambda>st (node, pos).
                if ntype node = Group then updateGroupMembership (node_id node) st else st)
                s4 newItems)
      | _ \<Rightarrow> s)"

section \<open>Adding nodes and drawings\<close>

definition defaultName :: "node_type \<Rightarrow> string" where
  "defaultName t =
     (if t = Note then ''New Note''
      else if t = Shape then ''New Shape''
      else if t = Group then ''New Area''
      else if t = TextNode then ''Type text...''
      else ''New Role'')"

text \<open>The object literal of \<^verbatim>\<open>addNode\<close> before \<^verbatim>\<open>...options\<close> is spread over it.\<close>

definition newNodeDefaults :: "node_type \<Rightarrow> string \<Rightarrow> ChartNode" where
  "newNodeDefaults t newId =
     \<lparr>node_id = newId,
      name = defaultName t,
      role = (if t = Note \<or> t = Shape \<or> t = Group \<or> t = TextNode then [] else ''Position''),
      department = None,
      ntype = t,
      level = (if functional t then Some ''P0 - Egresado'' else None),
      children = Some [],
      style =
        \<lparr>shapeType = Some Rectangle, borderRadius = Some 8, fontSize = Some 14,
         fontFamily = Some ''sans-serif'', fontWeight = Some ''normal'',
         fontStyle = Some ''normal'', textDecoration = Some ''none'', textAlign = None,
         avatarType = AvatarIcon, avatarImage = None, avatarIcon = Some ''person'',
         backgroundColor = Some (if t = Group \<or> t = TextNode then ''transparent'' else ''#ffffff''),
         nameColor = Some (if t = Group then ''#64748b'' else ''#0f172a''),
         roleColor = Some ''#475569'', departmentColor = Some ''#64748b'',
         borderColor = Some ''#cbd5e1'',
         borderWidth = Some (if t = Group then 2 else if t = TextNode then 0 else 2)\<rparr>\<rparr>"

text \<open>The size \<^verbatim>\<open>addNode\<close> stores: the given dimensions (zero replaced by the default
  208 by 100), or the size of the type.\<close>

definition newNodeSize :: "node_type \<Rightarrow> (rat \<times> rat) option \<Rightarrow> rat \<times> rat" where
  "newNodeSize t dimensions =
     (case dimensions of
        Some (w, h) \<Rightarrow> (orDefault (Some w) 208, orDefault (Some h) 100)
      | None \<Rightarrow>
          if t = TextNode then (150, 50)
          else if t = Group then (300, 300)
          else if t = Shape then (150, 150)
          else if t = Note then (200, 200)
          else (208, 100))"

text \<open>\<^verbatim>\<open>addNode\<close> draws the identifier from \<^verbatim>\<open>Math.random()\<close>; it is the parameter
  \<open>newId\<close>. The new state is returned with the identifier the node is stored under.\<close>

definition addNode ::
  "string \<Rightarrow> node_type \<Rightarrow> rat \<Rightarrow> rat \<Rightarrow> PartialNode \<Rightarrow> (rat \<times> rat) option \<Rightarrow>
   ChartState \<Rightarrow> ChartState \<times> string" where
  "addNode newId t x y options dimensions s =
     (let s1 = saveHistory s;
          newNode = mergeNode (newNodeDefaults t newId) options;
          (w, h) = newNodeSize t dimensions;
          s2 = s1\<lparr>nodes := DAList.update (node_id newNode) newNode (nodes s1),
                  nodePositions :=
                    DAList.update (node_id newNode)
                      \<lparr>pos_x = x, pos_y = y, width = Some w, height = Some h\<rparr> (nodePositions s1)\<rparr>;
          s3 = (if t = Group then updateGroupMembership (node_id newNode) s2 else s2)
      in (s3, node_id newNode))"

text \<open>\<^verbatim>\<open>if (parentId)\<close> holds for a non-empty string.\<close>

definition lastSelected :: "ChartState \<Rightarrow> string option" where
  "lastSelected s =
     (if selectedNodeIds s = [] then None
      else if last (selectedNodeIds s) = [] then None
      else Some (last (selectedNodeIds s)))"

definition addMember :: "string \<Rightarrow> ChartState \<Rightarrow> ChartState" where
  "addMember newId s =
     (let s1 = saveHistory s;
          positions = nodePositions s1;
          parentId = lastSelected s1;
          (newX, newY) =
            (case parentId of
               Some p \<Rightarrow>
                 (case DAList.lookup positions p of
                    None \<Rightarrow> (100, 100)
                  | Some parentPos \<Rightarrow>
                      (let siblingsCount =
                         (case DAList.lookup (nodes s1) p of
                            None \<Rightarrow> 0
                          | Some parentNode \<Rightarrow> length (childList parentNode))
                       in (pos_x parentPos + of_nat siblingsCount * 240, pos_y parentPos + 180)))
             | None \<Rightarrow>
                 if mapKeys positions = [] then (100, 100)
                 else (foldl (\<lambda>maxX p. if pos_x p > maxX then pos_x p else maxX) 0
                         (mapValues positions) + 250, 100));
          (s2, storedId) = addNode newId Employee newX newY emptyPartial None s1;
          s3 = (case parentId of
                  None \<Rightarrow> s2
                | Some p \<Rightarrow>
                    (case DAList.lookup (nodes s2) p of
                       None \<Rightarrow> s2
                     | Some parent \<Rightarrow>
                         s2\<lparr>nodes := DAList.update p
                               (parent\<lparr>children := Some (childList parent @ [storedId])\<rparr>) (nodes s2)\<rparr>))
      in s3\<lparr>selectedNodeIds := [storedId]\<rparr>)"

definition addDrawing :: "Drawing \<Rightarrow> ChartState \<Rightarrow> ChartState" where
  "addDrawing drawing s = (let s1 = saveHistory s in s1\<lparr>drawings := drawings s1 @ [drawing]\<rparr>)"

definition clearDrawings :: "ChartState \<Rightarrow> ChartState" where
  "clearDrawings s = (saveHistory s)\<lparr>drawings := []\<rparr>"

definition moveSelectedDrawings ::
  "(string \<Rightarrow> rat \<Rightarrow> rat \<Rightarrow> string) \<Rightarrow> rat \<Rightarrow> rat \<Rightarrow> ChartState \<Rightarrow> ChartState" where
  "moveSelectedDrawings shift dx dy s =
     (if selectedDrawingIds s = [] then s
      else s\<lparr>drawings :=
             map (\<lambda>d. if drawing_id d \<in> set (selectedDrawingIds s)
                       then d\<lparr>path := shift (path d) dx dy\<rparr> else d) (drawings s)\<rparr>)"

definition updatePan :: "rat \<Rightarrow> rat \<Rightarrow> ChartState \<Rightarrow> ChartState" where
  "updatePan dx dy s = s\<lparr>panOffset := (fst (panOffset s) + dx, snd (panOffset s) + dy)\<rparr>"

section \<open>Automatic layout\<close>

definition CARD_WIDTH :: rat where "CARD_WIDTH = 250"
definition LEVEL_HEIGHT :: rat where "LEVEL_HEIGHT = 400"
definition GROUP_PADDING :: rat where "GROUP_PADDING = 150"
definition GROUP_MARGIN :: rat where "GROUP_MARGIN = 800"
definition NODE_MARGIN :: rat where "NODE_MARGIN = 80"

text \<open>\<^verbatim>\<open>map.get(id)?.department || ''\<close>.\<close>

definition deptOf :: "(string, ChartNode) alist \<Rightarrow> string \<Rightarrow> string" where
  "deptOf m i =
     (case DAList.lookup m i of
        None \<Rightarrow> []
      | Some node \<Rightarrow> (case department node of None \<Rightarrow> [] | Some d \<Rightarrow> d))"

text \<open>
  Step 0.5: a text, note or shape node whose centre lies in the rectangle of a group is
  anchored to that group, with its offset from the corner of the group. A later group
  that contains the centre replaces an earlier one.
\<close>

definition anchorStep ::
  "(string, NodePosition) alist \<Rightarrow> ChartNode \<Rightarrow> NodePosition \<Rightarrow>
   (string, string \<times> rat \<times> rat) alist \<Rightarrow> ChartNode \<Rightarrow> (string, string \<times> rat \<times> rat) alist" where
  "anchorStep positions node nodePos anchored grp =
     (if ntype grp = Group then
        (case DAList.lookup positions (node_id grp) of
           None \<Rightarrow> anchored
         | Some groupPos \<Rightarrow>
             (let nodeCx = pos_x nodePos + orDefault (width nodePos) 0 / 2;
                  nodeCy = pos_y nodePos + orDefault (height nodePos) 0 / 2
              in if nodeCx \<ge> pos_x groupPos \<and> nodeCx \<le> pos_x groupPos + orDefault (width groupPos) 0 \<and>
                    nodeCy \<ge> pos_y groupPos \<and> nodeCy \<le> pos_y groupPos + orDefault (height groupPos) 0
                 then DAList.update (node_id node)
                        (node_id grp, pos_x nodePos - pos_x groupPos, pos_y nodePos - pos_y groupPos)
                        anchored
                 else anchored))
      else anchored)"

definition captureAnchors ::
  "(string, ChartNode) alist \<Rightarrow> (string, NodePosition) alist \<Rightarrow>
   (string, string \<times> rat \<times> rat) alist" where
  "captureAnchors m positions =
     foldl (\<lambda>anchored node.
        if ntype node = TextNode \<or> ntype node = Note \<or> ntype node = Shape then
          (case DAList.lookup positions (node_id node) of
             None \<Rightarrow> anchored
           | Some nodePos \<Rightarrow> foldl (anchorStep positions node nodePos) anchored (mapValues m))
        else anchored)
       DAList.empty (mapValues m)"

text \<open>
  \<^verbatim>\<open>sortChildrenByDepartment\<close> sorts the \<^verbatim>\<open>children\<close> array of each node in place.
  \<^verbatim>\<open>Array.prototype.sort\<close> is stable, and the comparator orders by the department
  string, so the sort is \<^const>\<open>sort_key\<close> on \<^const>\<open>deptOf\<close>. Strings compare by
  their characters' codes.
\<close>

definition sortChildrenStep :: "(string, ChartNode) alist \<Rightarrow> string \<Rightarrow> (string, ChartNode) alist" where
  "sortChildrenStep m k =
     (case DAList.lookup m k of
        None \<Rightarrow> m
      | Some node \<Rightarrow>
          (case children node of
             None \<Rightarrow> m
           | Some cs \<Rightarrow>
               if length cs > 1
               then DAList.update k (node\<lparr>children := Some (sort_key (deptOf m) cs)\<rparr>) m
               else m))"

definition sortChildrenByDepartment :: "(string, ChartNode) alist \<Rightarrow> (string, ChartNode) alist" where
  "sortChildrenByDepartment m = foldl sortChildrenStep m (mapKeys m)"

text \<open>
  The two nested \<^verbatim>\<open>while\<close> loops of \<^verbatim>\<open>measureSubtree\<close> walk the children in blocks
  of equal department. \<open>blocksWidth\<close> is the loop on the departments and widths of the
  children: a block is the first child and the children after it with the same
  department.
\<close>

function blocksWidth :: "(string \<times> rat) list \<Rightarrow> rat" where
  "blocksWidth [] = 0"
| "blocksWidth ((startDept, w) # rest) =
     (let block = takeWhile (\<lambda>p. fst p = startDept) rest;
          remaining = dropWhile (\<lambda>p. fst p = startDept) rest;
          blockWidth = w + sum_list (map (\<lambda>p. NODE_MARGIN + snd p) block)
            + (if startDept \<noteq> [] then GROUP_PADDING * 2 else 0)
      in blockWidth + (if remaining \<noteq> [] then GROUP_MARGIN else 0) + blocksWidth remaining)"
  by pat_completeness auto
termination
  by (relation "measure length") (auto simp: length_dropWhile_le less_Suc_eq_le)

text \<open>\<^verbatim>\<open>measureSubtree\<close> recurses into the children and does not return on a cyclic
  adjacency; the first argument bounds the depth of the recursion.\<close>

fun measureSubtree :: "nat \<Rightarrow> (string, ChartNode) alist \<Rightarrow> string \<Rightarrow> rat option" where
  "measureSubtree 0 m nodeId = None"
| "measureSubtree (Suc n) m nodeId =
     (case DAList.lookup m nodeId of
        None \<Rightarrow> Some 0
      | Some node \<Rightarrow>
          (case children node of
             None \<Rightarrow> Some CARD_WIDTH
           | Some cs \<Rightarrow>
               if cs = [] then Some CARD_WIDTH
               else
                 (case those (map (measureSubtree n m) cs) of
                    None \<Rightarrow> None
                  | Some ws \<Rightarrow> Some (blocksWidth (zip (map (deptOf m) cs) ws)))))"

text \<open>
  The loops of \<^verbatim>\<open>executeLayout\<close> advance \<^verbatim>\<open>currentX\<close> over the children. The value
  of \<^verbatim>\<open>currentX\<close> at each recursive call depends on the departments and the measured
  widths only: \<open>placeBlock\<close> is the inner loop over one block and \<open>childOrigins\<close> the
  outer loop; they give each child the \<^verbatim>\<open>x\<close> its subtree is laid out from.
\<close>

fun placeBlock :: "rat \<Rightarrow> (string \<times> string \<times> rat) list \<Rightarrow> (string \<times> rat) list \<times> rat" where
  "placeBlock currentX [] = ([], currentX)"
| "placeBlock currentX [(c, d, w)] = ([(c, currentX)], currentX + w)"
| "placeBlock currentX ((c, d, w) # next # others) =
     (case placeBlock (currentX + w + NODE_MARGIN) (next # others) of
        (placed, endX) \<Rightarrow> ((c, currentX) # placed, endX))"

function childOrigins :: "rat \<Rightarrow> (string \<times> string \<times> rat) list \<Rightarrow> (string \<times> rat) list" where
  "childOrigins currentX [] = []"
| "childOrigins currentX ((c, startDept, w) # rest) =
     (let block = takeWhile (\<lambda>p. fst (snd p) = startDept) rest;
          remaining = dropWhile (\<lambda>p. fst (snd p) = startDept) rest;
          x0 = (if startDept \<noteq> [] then currentX + GROUP_PADDING else currentX);
          (placed, x1) = placeBlock x0 ((c, startDept, w) # block);
          x2 = (if startDept \<noteq> [] then x1 + GROUP_PADDING else x1);
          x3 = (if remaining \<noteq> [] then x2 + GROUP_MARGIN else x2)
      in placed @ childOrigins x3 remaining)"
  by pat_completeness auto
termination
  by (relation "measure (\<lambda>(x, cs). length cs)") (auto simp: length_dropWhile_le less_Suc_eq_le)

fun executeLayout ::
  "nat \<Rightarrow> (string, ChartNode) alist \<Rightarrow> (string, NodePosition) alist \<Rightarrow>
   (string, NodePosition) alist \<Rightarrow> string \<Rightarrow> rat \<Rightarrow> nat \<Rightarrow> (string, NodePosition) alist option"
  and executeLayoutChildren ::
  "nat \<Rightarrow> (string, ChartNode) alist \<Rightarrow> (string, NodePosition) alist \<Rightarrow>
   (string, NodePosition) alist \<Rightarrow> (string \<times> rat) list \<Rightarrow> nat \<Rightarrow> (string, NodePosition) alist option"
where
  "executeLayout 0 m currentPositions newPositions nodeId x depth = None"
| "executeLayout (Suc n) m currentPositions newPositions nodeId x depth =
     (case DAList.lookup m nodeId of
        None \<Rightarrow> Some newPositions
      | Some node \<Rightarrow>
          (case measureSubtree (Suc n) m nodeId of
             None \<Rightarrow> None
           | Some totalW \<Rightarrow>
               (let contentCenter = x + totalW / 2;
                    oldPos = DAList.lookup currentPositions nodeId;
                    w = (case oldPos of None \<Rightarrow> 208 | Some p \<Rightarrow> orDefault (width p) 208);
                    h = (case oldPos of None \<Rightarrow> 100 | Some p \<Rightarrow> orDefault (height p) 100);
                    placed = DAList.update nodeId
                      \<lparr>pos_x = contentCenter - w / 2, pos_y = of_nat depth * LEVEL_HEIGHT + 50,
                       width = Some w, height = Some h\<rparr> newPositions
                in (case children node of
                      None \<Rightarrow> Some placed
                    | Some cs \<Rightarrow>
                        if cs = [] then Some placed
                        else
                          (case those (map (measureSubtree n m) cs) of
                             None \<Rightarrow> None
                           | Some ws \<Rightarrow>
                               executeLayoutChildren n m currentPositions placed
                                 (childOrigins x (zip cs (zip (map (deptOf m) cs) ws)))
                                 (Suc depth))))))"
| "executeLayoutChildren n m currentPositions newPositions [] depth = Some newPositions"
| "executeLayoutChildren n m currentPositions newPositions ((childId, childX) # rest) depth =
     (case executeLayout n m currentPositions newPositions childId childX depth of
        None \<Rightarrow> None
      | Some placed \<Rightarrow> executeLayoutChildren n m currentPositions placed rest depth)"

text \<open>Step 1: the roots are the functional nodes that no \<^verbatim>\<open>children\<close> array names;
  they are laid out from left to right.\<close>

definition layoutRootsOf :: "(string, ChartNode) alist \<Rightarrow> ChartNode list" where
  "layoutRootsOf m =
     (let childrenSet = concat (map childList (mapValues m))
      in filter (\<lambda>n. node_id n \<notin> set childrenSet \<and> functional (ntype n)) (mapValues m))"

fun layoutRoots ::
  "nat \<Rightarrow> (string, ChartNode) alist \<Rightarrow> (string, NodePosition) alist \<Rightarrow>
   ChartNode list \<Rightarrow> rat \<Rightarrow> (string, NodePosition) alist \<Rightarrow> (string, NodePosition) alist option" where
  "layoutRoots fuel m currentPositions [] rootX newPositions = Some newPositions"
| "layoutRoots fuel m currentPositions (rootNode # others) rootX newPositions =
     (case measureSubtree fuel m (node_id rootNode) of
        None \<Rightarrow> None
      | Some w \<Rightarrow>
          (case executeLayout fuel m currentPositions newPositions (node_id rootNode) rootX 0 of
             None \<Rightarrow> None
           | Some placed \<Rightarrow>
               layoutRoots fuel m currentPositions others (rootX + (w + GROUP_MARGIN + 200)) placed))"

text \<open>Step 2: the nodes that are not functional keep their position.\<close>

definition transferStep ::
  "(string, ChartNode) alist \<Rightarrow> (string, NodePosition) alist \<Rightarrow> string \<times> NodePosition \<Rightarrow>
   (string, NodePosition) alist" where
  "transferStep m newPositions entry =
     (case DAList.lookup m (fst entry) of
        None \<Rightarrow> newPositions
      | Some node \<Rightarrow>
          if \<not> functional (ntype node) then DAList.update (fst entry) (snd entry) newPositions
          else newPositions)"

text \<open>Step 3: a group takes the bounding box of the new positions of its members. The
  four bounds start at the infinities, so the first member with a position sets all of
  them.\<close>

definition boundsStep ::
  "(string, NodePosition) alist \<Rightarrow> (rat \<times> rat \<times> rat \<times> rat) option \<Rightarrow> ChartNode \<Rightarrow>
   (rat \<times> rat \<times> rat \<times> rat) option" where
  "boundsStep newPositions acc member =
     (case DAList.lookup newPositions (node_id member) of
        None \<Rightarrow> acc
      | Some pos \<Rightarrow>
          (let w = orDefault (width pos) 208; h = orDefault (height pos) 100
           in (case acc of
                 None \<Rightarrow> Some (pos_x pos, pos_y pos, pos_x pos + w, pos_y pos + h)
               | Some (minX, minY, maxX, maxY) \<Rightarrow>
                   Some (if pos_x pos < minX then pos_x pos else minX,
                         if pos_y pos < minY then pos_y pos else minY,
                         if pos_x pos + w > maxX then pos_x pos + w else maxX,
                         if pos_y pos + h > maxY then pos_y pos + h else maxY))))"

definition groupMembers :: "(string, ChartNode) alist \<Rightarrow> ChartNode \<Rightarrow> ChartNode list" where
  "groupMembers m grp =
     filter (\<lambda>n. department n = Some (name grp) \<and> node_id n \<noteq> node_id grp \<and> functional (ntype n))
       (mapValues m)"

definition fitGroupStep ::
  "(string, ChartNode) alist \<Rightarrow> (string, NodePosition) alist \<Rightarrow> ChartNode \<Rightarrow>
   (string, NodePosition) alist" where
  "fitGroupStep m newPositions grp =
     (case foldl (boundsStep newPositions) None (groupMembers m grp) of
        None \<Rightarrow> newPositions
      | Some (minX, minY, maxX, maxY) \<Rightarrow>
          DAList.update (node_id grp)
            \<lparr>pos_x = minX - 100, pos_y = minY - 100,
             width = Some ((maxX - minX) + 100 * 2),
             height = Some ((maxY - minY) + 100 + 140)\<rparr> newPositions)"

text \<open>Step 4: an anchored node follows its group.\<close>

definition reanchorStep ::
  "(string, NodePosition) alist \<Rightarrow> string \<times> string \<times> rat \<times> rat \<Rightarrow> (string, NodePosition) alist" where
  "reanchorStep newPositions anchor =
     (case anchor of (nodeId, groupId, offsetX, offsetY) \<Rightarrow>
        (case (DAList.lookup newPositions groupId, DAList.lookup newPositions nodeId) of
           (Some newGroupPos, Some currentNodePos) \<Rightarrow>
             DAList.update nodeId
               (currentNodePos\<lparr>pos_x := pos_x newGroupPos + offsetX,
                                pos_y := pos_y newGroupPos + offsetY\<rparr>) newPositions
         | _ \<Rightarrow> newPositions))"

text \<open>The new position map of \<^verbatim>\<open>autoLayout\<close>, from the node map with sorted children
  and the current positions.\<close>

definition layoutPositions ::
  "nat \<Rightarrow> (string, string \<times> rat \<times> rat) alist \<Rightarrow> (string, ChartNode) alist \<Rightarrow>
   (string, NodePosition) alist \<Rightarrow> (string, NodePosition) alist option" where
  "layoutPositions fuel anchoredNodes m currentPositions =
     (case layoutRoots fuel m currentPositions (layoutRootsOf m) 0 DAList.empty of
        None \<Rightarrow> None
      | Some placed \<Rightarrow>
          (let transferred = foldl (transferStep m) placed (DAList.impl_of currentPositions);
               fitted = foldl (fitGroupStep m) transferred
                          (filter (\<lambda>n. ntype n = Group) (mapValues m))
           in Some (foldl reanchorStep fitted (DAList.impl_of anchoredNodes))))"

text \<open>\<^verbatim>\<open>autoLayout(saveState)\<close>; \<open>None\<close> when the recursion bound is reached.\<close>

definition autoLayout :: "nat \<Rightarrow> bool \<Rightarrow> ChartState \<Rightarrow> ChartState option" where
  "autoLayout fuel saveState s =
     (let s1 = (if saveState then saveHistory s else s);
          currentPositions = nodePositions s1;
          anchoredNodes = captureAnchors (nodes s1) currentPositions;
          m = sortChildrenByDepartment (nodes s1)
      in (case layoutPositions fuel anchoredNodes m currentPositions of
            None \<Rightarrow> None
          | Some newPositions \<Rightarrow> Some (s1\<lparr>nodes := m, nodePositions := newPositions\<rparr>)))"

section \<open>Templates\<close>

definition clearChart :: "ChartState \<Rightarrow> ChartState" where
  "clearChart s = clearSelection (s\<lparr>nodes := DAList.empty, nodePositions := DAList.empty, drawings := []\<rparr>)"

definition loadWhiteboard :: "bool \<Rightarrow> ChartState \<Rightarrow> ChartState" where
  "loadWhiteboard saveState s = clearChart (if saveState then saveHistory s else s)"

text \<open>The private helpers \<^verbatim>\<open>_addNode\<close> (called with the default \<^verbatim>\<open>options\<close> only)
  and \<^verbatim>\<open>addGroup\<close> write into the two maps the template is built in.\<close>

definition templateNode ::
  "string \<Rightarrow> string \<Rightarrow> string \<Rightarrow> node_type \<Rightarrow> string \<Rightarrow> string list \<Rightarrow> ChartNode" where
  "templateNode i nm rl t dept cs =
     \<lparr>node_id = i, name = nm, role = rl, department = Some dept, ntype = t,
      level = (if t = Group then None else Some ''P4 - Facilitar''),
      children = Some cs,
      style =
        \<lparr>shapeType = Some Rectangle, borderRadius = Some 8, fontSize = None,
         fontFamily = None, fontWeight = None, fontStyle = None, textDecoration = None,
         textAlign = None, avatarType = AvatarIcon, avatarImage = None,
         avatarIcon = Some ''person'', backgroundColor = Some ''#ffffff'',
         nameColor = Some ''#0f172a'', roleColor = Some ''#475569'',
         departmentColor = Some ''#64748b'', borderColor = Some ''#cbd5e1'',
         borderWidth = Some 2\<rparr>\<rparr>"

type_synonym chart_maps = "(string, ChartNode) alist \<times> (string, NodePosition) alist"

definition addTemplateNode ::
  "string \<Rightarrow> string \<Rightarrow> string \<Rightarrow> node_type \<Rightarrow> string \<Rightarrow> rat \<Rightarrow> rat \<Rightarrow> string list \<Rightarrow>
   chart_maps \<Rightarrow> chart_maps" where
  "addTemplateNode i nm rl t dept x y cs maps =
     (DAList.update i (templateNode i nm rl t dept cs) (fst maps),
      DAList.update i \<lparr>pos_x = x, pos_y = y, width = Some 208, height = Some 100\<rparr> (snd maps))"

definition templateGroup :: "string \<Rightarrow> string \<Rightarrow> ChartNode" where
  "templateGroup i nm =
     \<lparr>node_id = i, name = nm, role = [], department = Some [], ntype = Group,
      level = None, children = Some [],
      style =
        \<lparr>shapeType = Some Rectangle, borderRadius = Some 16, fontSize = None,
         fontFamily = None, fontWeight = None, fontStyle = None, textDecoration = None,
         textAlign = None, avatarType = AvatarIcon, avatarImage = None, avatarIcon = None,
         backgroundColor = Some ''#fef9c3'', nameColor = Some ''#854d0e'',
         roleColor = Some [], departmentColor = Some [], borderColor = Some ''#fde047'',
         borderWidth = Some 2\<rparr>\<rparr>"

definition addGroup ::
  "string \<Rightarrow> string \<Rightarrow> rat \<Rightarrow> rat \<Rightarrow> rat \<Rightarrow> rat \<Rightarrow> chart_maps \<Rightarrow> chart_maps" where
  "addGroup i nm x y w h maps =
     (DAList.update i (templateGroup i nm) (fst maps),
      DAList.update i \<lparr>pos_x = x, pos_y = y, width = Some w, height = Some h\<rparr> (snd maps))"

text \<open>The avatar of node \<^verbatim>\<open>1\<close> is an emoji, given here by the bytes of its UTF-8
  encoding.\<close>

definition ceoIcon :: string where
  "ceoIcon = [CHR 0xF0, CHR 0x9F, CHR 0x91, CHR 0xA9, CHR 0xE2, CHR 0x80, CHR 0x8D,
              CHR 0xF0, CHR 0x9F, CHR 0x92, CHR 0xBC]"

definition functionalChartMaps :: chart_maps where
  "functionalChartMaps =
     (let maps =
        (addTemplateNode ''3-2'' ''Backend'' ''Team B'' Employee ''Product'' 950 450 []
        (addTemplateNode ''3-1'' ''Frontend'' ''Team A'' Employee ''Product'' 750 450 []
        (addTemplateNode ''3'' ''Emily Chen'' ''Engineering VP'' Manager ''Product'' 850 250 [''3-1'', ''3-2'']
        (addTemplateNode ''2-2'' ''Brand Team'' ''Lead'' Employee ''Growth'' 450 450 []
        (addTemplateNode ''2-1'' ''Growth Team'' ''Lead'' Employee ''Growth'' 250 450 []
        (addTemplateNode ''2'' ''James Wright'' ''Marketing VP'' Manager ''Growth'' 350 250 [''2-1'', ''2-2'']
        (addTemplateNode ''1'' ''Sarah Connor'' ''CEO / Founder'' Executive ''Management'' 600 50 [''2'', ''3'']
        (addGroup ''g3'' ''Product'' 800 250 300 300
        (addGroup ''g2'' ''Growth'' 200 250 300 300
        (addGroup ''g1'' ''Management'' 500 50 300 300
          (DAList.empty, DAList.empty)))))))))))
      in (case DAList.lookup (fst maps) ''1'' of
            None \<Rightarrow> maps
          | Some n1 \<Rightarrow>
              (DAList.update ''1''
                 (n1\<lparr>style := (style n1)\<lparr>avatarType := AvatarIcon, avatarIcon := Some ceoIcon\<rparr>\<rparr>)
                 (fst maps),
               snd maps)))"

definition loadFunctionalChart :: "nat \<Rightarrow> bool \<Rightarrow> ChartState \<Rightarrow> ChartState option" where
  "loadFunctionalChart fuel saveState s =
     (let s1 = (if saveState then saveHistory s else s)
      in autoLayout fuel False
           (s1\<lparr>nodes := fst functionalChartMaps, nodePositions := snd functionalChartMaps\<rparr>))"

section \<open>Sequences of commands\<close>

text \<open>
  The public methods of the service that change its state, as a datatype of calls.
  \<open>exec\<close> runs one call. Its parameters are the two path utilities and the bound
  on the depth of the recursions; the identifiers that the service draws at random are
  arguments of the calls that draw them.
\<close>

datatype command =
  AddNode string node_type rat rat PartialNode "(rat \<times> rat) option"
| AddMember string
| UpdateNode PartialNode
| UpdateNodePosition string rat rat
| UpdateNodeDimensions string rat rat
| LinkNodes string string
| UnlinkEdge string string
| DeleteSelectedEdge
| DeleteSelection
| DeleteDrawing string
| CopySelection
| PasteNodes "nat \<Rightarrow> string" rat rat
| AutoLayout bool
| LoadFunctionalChart bool
| LoadWhiteboard bool
| ImportFromJson import_data
| Undo
| Redo
| SaveHistory
| SelectNode string bool
| SelectDrawing string bool
| SelectAll
| SelectEdge string
| ClearSelection
| UpdateGroupMembership string
| UpdateNodeMembership string
| MoveSelectedDrawings rat rat
| AddDrawing Drawing
| ClearDrawings
| UpdatePan rat rat

fun exec ::
  "(string \<Rightarrow> rat \<times> rat \<times> rat \<times> rat) \<Rightarrow> (string \<Rightarrow> rat \<Rightarrow> rat \<Rightarrow> string) \<Rightarrow> nat \<Rightarrow>
   command \<Rightarrow> ChartState \<Rightarrow> ChartState option" where
  "exec bounds shift fuel (AddNode newId t x y options dimensions) s =
     Some (fst (addNode newId t x y options dimensions s))"
| "exec bounds shift fuel (AddMember newId) s = Some (addMember newId s)"
| "exec bounds shift fuel (UpdateNode upd) s = Some (updateNode upd s)"
| "exec bounds shift fuel (UpdateNodePosition i x y) s = Some (updateNodePosition i x y s)"
| "exec bounds shift fuel (UpdateNodeDimensions i w h) s = Some (updateNodeDimensions i w h s)"
| "exec bounds shift fuel (LinkNodes sourceId targetId) s = linkNodes fuel sourceId targetId s"
| "exec bounds shift fuel (UnlinkEdge sourceId targetId) s = Some (unlinkEdge sourceId targetId s)"
| "exec bounds shift fuel DeleteSelectedEdge s = Some (deleteSelectedEdge s)"
| "exec bounds shift fuel DeleteSelection s = Some (deleteSelection s)"
| "exec bounds shift fuel (DeleteDrawing i) s = Some (deleteDrawing i s)"
| "exec bounds shift fuel CopySelection s = Some (copySelection bounds s)"
| "exec bounds shift fuel (PasteNodes gen targetX targetY) s =
     Some (pasteNodes gen shift targetX targetY s)"
| "exec bounds shift fuel (AutoLayout saveState) s = autoLayout fuel saveState s"
| "exec bounds shift fuel (LoadFunctionalChart saveState) s = loadFunctionalChart fuel saveState s"
| "exec bounds shift fuel (LoadWhiteboard saveState) s = Some (loadWhiteboard saveState s)"
| "exec bounds shift fuel (ImportFromJson d) s = Some (snd (importFromJson d s))"
| "exec bounds shift fuel Undo s = Some (undo s)"
| "exec bounds shift fuel Redo s = Some (redo s)"
| "exec bounds shift fuel SaveHistory s = Some (saveHistory s)"
| "exec bounds shift fuel (SelectNode i multi) s = Some (selectNode i multi s)"
| "exec bounds shift fuel (SelectDrawing i multi) s = Some (selectDrawing i multi s)"
| "exec bounds shift fuel SelectAll s = Some (selectAll s)"
| "exec bounds shift fuel (SelectEdge i) s = Some (selectEdge i s)"
| "exec bounds shift fuel ClearSelection s = Some (clearSelection s)"
| "exec bounds shift fuel (UpdateGroupMembership groupId) s = Some (updateGroupMembership groupId s)"
| "exec bounds shift fuel (UpdateNodeMembership nodeId) s = Some (updateNodeMembership nodeId s)"
| "exec bounds shift fuel (MoveSelectedDrawings dx dy) s = Some (moveSelectedDrawings shift dx dy s)"
| "exec bounds shift fuel (AddDrawing drawing) s = Some (addDrawing drawing s)"
| "exec bounds shift fuel ClearDrawings s = Some (clearDrawings s)"
| "exec bounds shift fuel (UpdatePan dx dy) s = Some (updatePan dx dy s)"

text \<open>
  \<open>reach ok bounds shift s t\<close>: the state \<open>t\<close> is reached from \<open>s\<close> by a sequence
  of calls that return, each of them permitted by \<open>ok\<close> in the state it is made in.
\<close>

inductive reach ::
  "(ChartState \<Rightarrow> command \<Rightarrow> bool) \<Rightarrow> (string \<Rightarrow> rat \<times> rat \<times> rat \<times> rat) \<Rightarrow>
   (string \<Rightarrow> rat \<Rightarrow> rat \<Rightarrow> string) \<Rightarrow> ChartState \<Rightarrow> ChartState \<Rightarrow> bool"
  for ok bounds shift s where
  reach_start: "reach ok bounds shift s s"
| reach_step:
    "reach ok bounds shift s t \<Longrightarrow> ok t c \<Longrightarrow> exec bounds shift fuel c t = Some u \<Longrightarrow>
     reach ok bounds shift s u"

text \<open>Two states have the same history when their stacks agree.\<close>

definition sameHistory :: "ChartState \<Rightarrow> ChartState \<Rightarrow> bool" where
  "sameHistory s t = (undoStack t = undoStack s \<and> redoStack t = redoStack s)"

text \<open>Two states have the same chart when nodes, positions and drawings agree.\<close>

definition sameChart :: "ChartState \<Rightarrow> ChartState \<Rightarrow> bool" where
  "sameChart s t =
     (nodes t = nodes s \<and> nodePositions t = nodePositions s \<and> drawings t = drawings s)"

section \<open>Facts about maps\<close>

lemma impl_of_mapFromEntries_aux:
  "DAList.impl_of (foldl (\<lambda>m (k, v). DAList.update k v m) m0 es) =
   foldl (\<lambda>l (k, v). AList.update k v l) (DAList.impl_of m0) es"
  by (induction es arbitrary: m0) (auto simp: DAList.update.rep_eq split: prod.splits)

lemma foldl_update_append:
  "distinct (map fst (l @ es)) \<Longrightarrow> foldl (\<lambda>l (k, v). AList.update k v l) l es = l @ es"
proof (induction es arbitrary: l)
  case Nil
  then show ?case by simp
next
  case (Cons e es)
  obtain k v where e: "e = (k, v)" by (cases e)
  from Cons.prems e have notin: "k \<notin> fst ` set l" by auto
  have upd: "AList.update k v l = l @ [(k, v)]"
    using notin by (induction l) auto
  from Cons.prems e have "distinct (map fst ((l @ [(k, v)]) @ es))" by simp
  from Cons.IH [OF this] show ?case using e upd by simp
qed

lemma mapFromEntries_impl_of [simp]: "mapFromEntries (DAList.impl_of m) = m"
proof -
  have "DAList.impl_of (mapFromEntries (DAList.impl_of m)) = DAList.impl_of m"
    unfolding mapFromEntries_def impl_of_mapFromEntries_aux
    using foldl_update_append [of "[]" "DAList.impl_of m"] by (simp add: DAList.empty.rep_eq)
  then show ?thesis by (simp add: impl_of_inject)
qed

lemma impl_of_mapFromEntries:
  "DAList.impl_of (mapFromEntries es) = foldl (\<lambda>l (k, v). AList.update k v l) [] es"
  unfolding mapFromEntries_def impl_of_mapFromEntries_aux by (simp add: DAList.empty.rep_eq)


section \<open>Example states\<close>

text \<open>The state the field initialisers of the service give, before the constructor
  loads a template.\<close>

definition initialFields :: ChartState where
  "initialFields =
     \<lparr>nodes = DAList.empty, nodePositions = DAList.empty, drawings = [],
      selectedNodeIds = [], selectedDrawingIds = [], selectedEdgeId = None,
      zoomLevel = 100, panOffset = (0, 0), isDarkMode = False,
      undoStack = [], redoStack = [], clipboard = []\<rparr>"

section \<open>Selection and viewport across undo and redo\<close>

lemma applySnapshot_frame:
  "selectedNodeIds (applySnapshot sn s) = []"
  "selectedDrawingIds (applySnapshot sn s) = []"
  "selectedEdgeId (applySnapshot sn s) = None"
  "zoomLevel (applySnapshot sn s) = zoomLevel s"
  "panOffset (applySnapshot sn s) = panOffset s"
  "undoStack (applySnapshot sn s) = undoStack s"
  "redoStack (applySnapshot sn s) = redoStack s"
  "nodes (applySnapshot sn s) = mapFromEntries (snap_nodes sn)"
  "nodePositions (applySnapshot sn s) = mapFromEntries (snap_positions sn)"
  "drawings (applySnapshot sn s) = snap_drawings sn"
  by (simp_all add: applySnapshot_def clearSelection_def)

text \<open>
  Claim C10. An \<^verbatim>\<open>undo()\<close> on a non-empty undo stack, and a \<^verbatim>\<open>redo()\<close> on a
  non-empty redo stack (the calls that apply a snapshot), leave both selection sets empty
  and the selected edge null, and do not change the zoom level or the pan offset.
\<close>

theorem undo_redo_selection_and_view:
  "(undoStack s \<noteq> [] \<longrightarrow>
      selectedNodeIds (undo s) = [] \<and> selectedDrawingIds (undo s) = [] \<and>
      selectedEdgeId (undo s) = None \<and>
      zoomLevel (undo s) = zoomLevel s \<and> panOffset (undo s) = panOffset s) \<and>
   (redoStack s \<noteq> [] \<longrightarrow>
      selectedNodeIds (redo s) = [] \<and> selectedDrawingIds (redo s) = [] \<and>
      selectedEdgeId (redo s) = None \<and>
      zoomLevel (redo s) = zoomLevel s \<and> panOffset (redo s) = panOffset s)"
  by (simp add: undo_def redo_def Let_def applySnapshot_frame)

definition selectedExample :: ChartState where
  "selectedExample =
     initialFields\<lparr>selectedNodeIds := [''a''], selectedDrawingIds := [''d''],
        selectedEdgeId := Some ''a-b'', zoomLevel := 80, panOffset := (3, 4),
        undoStack := [currentSnapshot initialFields],
        redoStack := [currentSnapshot initialFields]\<rparr>"

theorem undo_redo_selection_and_view_witness:
  "undoStack selectedExample \<noteq> [] \<and> redoStack selectedExample \<noteq> [] \<and>
   selectedNodeIds selectedExample = [''a''] \<and>
   selectedNodeIds (undo selectedExample) = [] \<and>
   selectedDrawingIds (undo selectedExample) = [] \<and>
   selectedEdgeId (undo selectedExample) = None \<and>
   zoomLevel (undo selectedExample) = 80 \<and> panOffset (undo selectedExample) = (3, 4) \<and>
   selectedNodeIds (redo selectedExample) = [] \<and>
   selectedDrawingIds (redo selectedExample) = [] \<and>
   selectedEdgeId (redo selectedExample) = None \<and>
   zoomLevel (redo selectedExample) = 80 \<and> panOffset (redo selectedExample) = (3, 4)"
  using undo_redo_selection_and_view [of selectedExample]
  by (simp add: selectedExample_def initialFields_def)

section \<open>Import: rejection and rollback\<close>





section \<open>The bound on the history\<close>

lemma saveHistory_stacks:
  "undoStack (saveHistory s) =
     (if length (undoStack s) < maxHistorySize then undoStack s @ [currentSnapshot s]
      else tl (undoStack s @ [currentSnapshot s]))"
  "redoStack (saveHistory s) = []"
  by (auto simp: saveHistory_def Let_def)

lemma undo_stacks:
  "undoStack s \<noteq> [] \<Longrightarrow> undoStack (undo s) = butlast (undoStack s)"
  "undoStack s \<noteq> [] \<Longrightarrow> redoStack (undo s) = redoStack s @ [currentSnapshot s]"
  "undoStack s = [] \<Longrightarrow> undo s = s"
  by (simp_all add: undo_def Let_def applySnapshot_frame)

lemma redo_stacks:
  "redoStack s \<noteq> [] \<Longrightarrow> redoStack (redo s) = butlast (redoStack s)"
  "redoStack s \<noteq> [] \<Longrightarrow> undoStack (redo s) = undoStack s @ [currentSnapshot s]"
  "redoStack s = [] \<Longrightarrow> redo s = s"
  by (simp_all add: redo_def Let_def applySnapshot_frame)

section \<open>Which commands touch the history\<close>

lemma sameHistory_refl [simp]: "sameHistory s s"
  by (simp add: sameHistory_def)

lemma sameHistory_trans: "sameHistory s t \<Longrightarrow> sameHistory t u \<Longrightarrow> sameHistory s u"
  by (simp add: sameHistory_def)

lemma sameHistory_fields [simp]:
  "sameHistory s (t\<lparr>nodes := a\<rparr>) = sameHistory s t"
  "sameHistory s (t\<lparr>nodePositions := b\<rparr>) = sameHistory s t"
  "sameHistory s (t\<lparr>drawings := c\<rparr>) = sameHistory s t"
  "sameHistory s (t\<lparr>selectedNodeIds := d\<rparr>) = sameHistory s t"
  "sameHistory s (t\<lparr>selectedDrawingIds := e\<rparr>) = sameHistory s t"
  "sameHistory s (t\<lparr>selectedEdgeId := f\<rparr>) = sameHistory s t"
  "sameHistory s (t\<lparr>panOffset := g\<rparr>) = sameHistory s t"
  "sameHistory s (t\<lparr>clipboard := h\<rparr>) = sameHistory s t"
  by (simp_all add: sameHistory_def)

lemma hist_updateNode: "sameHistory s (updateNode upd s)"
  by (simp add: updateNode_def)

lemma hist_updateNodePosition: "sameHistory s (updateNodePosition i x y s)"
  by (simp add: updateNodePosition_def)

lemma hist_updateNodeDimensions: "sameHistory s (updateNodeDimensions i w h s)"
  by (simp add: updateNodeDimensions_def)

lemma hist_unlinkEdge: "sameHistory s (unlinkEdge a b s)"
  by (simp add: unlinkEdge_def)

lemma hist_copySelection: "sameHistory s (copySelection bounds s)"
  by (simp add: copySelection_def)

lemma hist_select:
  "sameHistory s (selectNode i multi s)"
  "sameHistory s (selectDrawing i multi s)"
  "sameHistory s (selectAll s)"
  "sameHistory s (selectEdge i s)"
  "sameHistory s (clearSelection s)"
  by (simp_all add: selectNode_def selectDrawing_def selectAll_def selectEdge_def
      clearSelection_def Let_def)

lemma hist_updateGroupMembership: "sameHistory s (updateGroupMembership g s)"
  by (simp add: updateGroupMembership_def split: option.splits)

lemma hist_updateNodeMembership: "sameHistory s (updateNodeMembership n s)"
  by (simp add: updateNodeMembership_def split: option.splits)

lemma hist_moveSelectedDrawings: "sameHistory s (moveSelectedDrawings shift dx dy s)"
  by (simp add: moveSelectedDrawings_def)

lemma hist_updatePan: "sameHistory s (updatePan dx dy s)"
  by (simp add: updatePan_def)

lemma hist_addNode: "sameHistory (saveHistory s) (fst (addNode newId t x y opts dims s))"
  using hist_updateGroupMembership
  by (simp add: addNode_def Let_def split: prod.splits) (simp add: sameHistory_def)

lemma hist_linkNodes:
  "linkNodes fuel a b s = Some t \<Longrightarrow> t = s \<or> sameHistory (saveHistory s) t"
  by (auto simp: linkNodes_def Let_def split: if_splits option.splits bool.splits)

lemma hist_deleteSelectedEdge:
  "deleteSelectedEdge s = s \<or> sameHistory (saveHistory s) (deleteSelectedEdge s)"
  using hist_unlinkEdge
  by (auto simp: deleteSelectedEdge_def split: option.splits prod.splits)

lemma hist_deleteSelection:
  "deleteSelection s = s \<or> sameHistory (saveHistory s) (deleteSelection s)"
  by (simp add: deleteSelection_def Let_def)

lemma hist_deleteDrawing: "sameHistory (saveHistory s) (deleteDrawing i s)"
  by (simp add: deleteDrawing_def Let_def)

lemma hist_foldl_membership:
  "sameHistory s (foldl (\<lambda>st (node, pos).
       if ntype node = Group then updateGroupMembership (node_id node) st else st) s items)"
proof (induction items arbitrary: s)
  case Nil
  show ?case by simp
next
  case (Cons a items)
  obtain node pos where a: "a = (node, pos)" by (cases a)
  show ?case
    using Cons.IH [of "if ntype node = Group then updateGroupMembership (node_id node) s else s"]
      hist_updateGroupMembership [of s "node_id node"]
    by (auto simp: a intro: sameHistory_trans)
qed

lemma hist_pasteNodes:
  "pasteNodes gen shift x y s = s \<or> sameHistory (saveHistory s) (pasteNodes gen shift x y s)"
proof (cases "minFrom (map itemX (clipboard s))")
  case None
  then show ?thesis by (simp add: pasteNodes_def)
next
  case (Some a)
  show ?thesis
  proof (cases "minFrom (map itemY (clipboard s))")
    case None
    then show ?thesis by (simp add: pasteNodes_def Some)
  next
    case (Some b)
    have "sameHistory (saveHistory s) (pasteNodes gen shift x y s)"
      unfolding pasteNodes_def
      using \<open>minFrom (map itemX (clipboard s)) = Some a\<close> Some
      apply (simp add: Let_def split: prod.splits)
      apply (intro allI impI conjI)
      apply (rule sameHistory_trans [OF _ hist_foldl_membership]; simp)+
      done
    then show ?thesis ..
  qed
qed

lemma hist_autoLayout:
  "autoLayout fuel b s = Some t \<Longrightarrow>
   sameHistory (if b then saveHistory s else s) t"
  by (auto simp: autoLayout_def Let_def split: option.splits)

lemma hist_loadFunctionalChart:
  "loadFunctionalChart fuel b s = Some t \<Longrightarrow>
   sameHistory (if b then saveHistory s else s) t"
  by (auto simp: loadFunctionalChart_def Let_def sameHistory_def dest!: hist_autoLayout)

lemma hist_loadWhiteboard:
  "sameHistory (if b then saveHistory s else s) (loadWhiteboard b s)"
  by (simp add: loadWhiteboard_def clearChart_def clearSelection_def)

lemma hist_addDrawing: "sameHistory (saveHistory s) (addDrawing d s)"
  by (simp add: addDrawing_def Let_def)

lemma hist_clearDrawings: "sameHistory (saveHistory s) (clearDrawings s)"
  by (simp add: clearDrawings_def)

lemma hist_addMember: "sameHistory (saveHistory (saveHistory s)) (addMember newId s)"
proof -
  have "\<And>X Y. sameHistory (saveHistory (saveHistory s))
      (fst (addNode newId Employee X Y emptyPartial None (saveHistory s)))"
    by (rule hist_addNode)
  then show ?thesis
    by (simp add: addMember_def Let_def split_beta sameHistory_def split: option.splits)
qed

definition histBound :: "ChartState \<Rightarrow> bool" where
  "histBound s = (length (undoStack s) + length (redoStack s) \<le> maxHistorySize)"

lemma histBound_same: "sameHistory s t \<Longrightarrow> histBound s \<Longrightarrow> histBound t"
  by (simp add: sameHistory_def histBound_def)

lemma histBound_saveHistory: "histBound s \<Longrightarrow> histBound (saveHistory s)"
  by (auto simp: histBound_def saveHistory_def Let_def)

lemma histBound_undo: "histBound s \<Longrightarrow> histBound (undo s)"
  by (cases "undoStack s") (simp_all add: histBound_def undo_stacks)

lemma histBound_redo: "histBound s \<Longrightarrow> histBound (redo s)"
  by (cases "redoStack s") (simp_all add: histBound_def redo_stacks)

lemma histBound_import: "histBound s \<Longrightarrow> histBound (snd (importFromJson d s))"
proof (induction d s rule: importFromJson.induct)
  case (4 ns ps ds s)
  have a: "histBound (saveHistory s)" using 4 by (rule histBound_saveHistory)
  have b: "histBound (importRollback (saveHistory s))"
    using histBound_undo [OF a] by (simp add: importRollback_def histBound_def)
  have c: "\<And>n p d. histBound (clearSelection (saveHistory s\<lparr>nodes := n, nodePositions := p, drawings := d\<rparr>))"
    using a by (simp add: histBound_def clearSelection_def)
  show ?case using b c by (simp add: Let_def split: option.splits)
qed simp_all

lemma histBound_exec:
  assumes "histBound s" and "exec bounds shift fuel c s = Some t"
  shows "histBound t"
proof -
  note sv = histBound_saveHistory [OF assms(1)]
  show ?thesis
  proof (cases c)
    case (AddNode newId ty x y opts dims)
    then show ?thesis using assms(2) histBound_same [OF hist_addNode sv] by auto
  next
    case (AddMember newId)
    then show ?thesis
      using assms(2) histBound_same [OF hist_addMember histBound_saveHistory [OF sv]] by auto
  next
    case (UpdateNode upd)
    then show ?thesis using assms histBound_same [OF hist_updateNode] by auto
  next
    case (UpdateNodePosition i x y)
    then show ?thesis using assms histBound_same [OF hist_updateNodePosition] by auto
  next
    case (UpdateNodeDimensions i w h)
    then show ?thesis using assms histBound_same [OF hist_updateNodeDimensions] by auto
  next
    case (LinkNodes a b)
    then show ?thesis using assms sv hist_linkNodes [of fuel a b s t] histBound_same by auto
  next
    case (UnlinkEdge a b)
    then show ?thesis using assms histBound_same [OF hist_unlinkEdge] by auto
  next
    case DeleteSelectedEdge
    then show ?thesis using assms sv hist_deleteSelectedEdge [of s] histBound_same by auto
  next
    case DeleteSelection
    then show ?thesis using assms sv hist_deleteSelection [of s] histBound_same by auto
  next
    case (DeleteDrawing i)
    then show ?thesis using assms(2) histBound_same [OF hist_deleteDrawing sv] by auto
  next
    case CopySelection
    then show ?thesis using assms histBound_same [OF hist_copySelection] by auto
  next
    case (PasteNodes gen x y)
    then show ?thesis
      using assms sv hist_pasteNodes [of gen shift x y s] histBound_same by auto
  next
    case (AutoLayout b)
    then show ?thesis
      using assms sv hist_autoLayout [of fuel b s t] histBound_same by (cases b) auto
  next
    case (LoadFunctionalChart b)
    then show ?thesis
      using assms sv hist_loadFunctionalChart [of fuel b s t] histBound_same by (cases b) auto
  next
    case (LoadWhiteboard b)
    then show ?thesis
      using assms sv hist_loadWhiteboard [of b s] histBound_same by (cases b) auto
  next
    case (ImportFromJson d)
    then show ?thesis using assms histBound_import by auto
  next
    case Undo
    then show ?thesis using assms histBound_undo by auto
  next
    case Redo
    then show ?thesis using assms histBound_redo by auto
  next
    case SaveHistory
    then show ?thesis using assms sv by auto
  next
    case (SelectNode i multi)
    then show ?thesis using assms histBound_same [OF hist_select(1)] by auto
  next
    case (SelectDrawing i multi)
    then show ?thesis using assms histBound_same [OF hist_select(2)] by auto
  next
    case SelectAll
    then show ?thesis using assms histBound_same [OF hist_select(3)] by auto
  next
    case (SelectEdge i)
    then show ?thesis using assms histBound_same [OF hist_select(4)] by auto
  next
    case ClearSelection
    then show ?thesis using assms histBound_same [OF hist_select(5)] by auto
  next
    case (UpdateGroupMembership g)
    then show ?thesis using assms histBound_same [OF hist_updateGroupMembership] by auto
  next
    case (UpdateNodeMembership n)
    then show ?thesis using assms histBound_same [OF hist_updateNodeMembership] by auto
  next
    case (MoveSelectedDrawings dx dy)
    then show ?thesis using assms histBound_same [OF hist_moveSelectedDrawings] by auto
  next
    case (AddDrawing d)
    then show ?thesis using assms(2) histBound_same [OF hist_addDrawing sv] by auto
  next
    case ClearDrawings
    then show ?thesis using assms(2) histBound_same [OF hist_clearDrawings sv] by auto
  next
    case (UpdatePan dx dy)
    then show ?thesis using assms histBound_same [OF hist_updatePan] by auto
  qed
qed

lemma histBound_reach:
  "reach ok bounds shift s t \<Longrightarrow> histBound s \<Longrightarrow> histBound t"
  by (induction rule: reach.induct) (auto intro: histBound_exec)

text \<open>
  Claim C9. Whatever calls are made, in any number and order, from a state whose two
  stacks together hold at most \<open>maxHistorySize\<close> snapshots (50; both stacks are empty
  when the service starts), the undo stack never holds more than \<open>maxHistorySize\<close>
  snapshots. \<^verbatim>\<open>saveHistory\<close> appends the snapshot of the current chart; on a full
  stack it drops the oldest snapshot, the first of the list; and it empties the redo
  stack.
\<close>

theorem history_stays_bounded:
  "maxHistorySize = 50 \<and>
   (length (undoStack s) + length (redoStack s) \<le> maxHistorySize \<and>
    reach (\<lambda>st c. True) bounds shift s t \<longrightarrow>
      length (undoStack t) \<le> maxHistorySize) \<and>
   (length (undoStack s) < maxHistorySize \<longrightarrow>
      undoStack (saveHistory s) = undoStack s @ [currentSnapshot s]) \<and>
   (length (undoStack s) = maxHistorySize \<longrightarrow>
      undoStack (saveHistory s) = tl (undoStack s) @ [currentSnapshot s]) \<and>
   redoStack (saveHistory s) = []"
proof -
  have "histBound t" if "histBound s" "reach (\<lambda>st c. True) bounds shift s t"
    using histBound_reach that by blast
  then have a: "length (undoStack s) + length (redoStack s) \<le> maxHistorySize \<and>
    reach (\<lambda>st c. True) bounds shift s t \<longrightarrow> length (undoStack t) \<le> maxHistorySize"
    by (auto simp: histBound_def)
  have b: "length (undoStack s) = maxHistorySize \<longrightarrow>
      undoStack (saveHistory s) = tl (undoStack s) @ [currentSnapshot s]"
    by (cases "undoStack s") (auto simp: saveHistory_stacks maxHistorySize_def)
  show ?thesis using a b by (simp add: saveHistory_stacks) (simp add: maxHistorySize_def)
qed

definition sixtySaves :: ChartState where
  "sixtySaves = (saveHistory ^^ 60) initialFields"

lemma funpow_saveHistory_length:
  "length (undoStack ((saveHistory ^^ n) initialFields)) = min n maxHistorySize"
  by (induction n) (auto simp: saveHistory_stacks initialFields_def maxHistorySize_def min_def)

lemma reach_funpow_saveHistory:
  "reach (\<lambda>st c. True) bounds shift s ((saveHistory ^^ n) s)"
proof (induction n)
  case 0
  show ?case by (simp add: reach_start)
next
  case (Suc n)
  show ?case
    using reach_step [OF Suc, where c = SaveHistory and u = "saveHistory ((saveHistory ^^ n) s)"]
    by simp
qed

theorem history_stays_bounded_witness:
  "length (undoStack initialFields) + length (redoStack initialFields) \<le> maxHistorySize \<and>
   reach (\<lambda>st c. True) (\<lambda>p. (0, 0, 0, 0)) (\<lambda>p dx dy. p) initialFields sixtySaves \<and>
   length (undoStack sixtySaves) = 50 \<and>
   undoStack (saveHistory initialFields) = [currentSnapshot initialFields] \<and>
   undoStack (saveHistory sixtySaves) = tl (undoStack sixtySaves) @ [currentSnapshot sixtySaves] \<and>
   redoStack (saveHistory sixtySaves) = []"
proof -
  have r: "reach (\<lambda>st c. True) (\<lambda>p. (0, 0, 0, 0)) (\<lambda>p dx dy. p) initialFields sixtySaves"
    unfolding sixtySaves_def by (rule reach_funpow_saveHistory)
  have l: "length (undoStack sixtySaves) = 50"
    unfolding sixtySaves_def by (simp add: funpow_saveHistory_length maxHistorySize_def)
  have i: "length (undoStack initialFields) + length (redoStack initialFields) \<le> maxHistorySize"
    by (simp add: initialFields_def)
  show ?thesis
    using history_stays_bounded [of sixtySaves "\<lambda>p. (0, 0, 0, 0)" "\<lambda>p dx dy. p" sixtySaves]
      history_stays_bounded [of initialFields "\<lambda>p. (0, 0, 0, 0)" "\<lambda>p dx dy. p" sixtySaves]
      r l i
    by (simp add: initialFields_def)
qed

section \<open>Undo and redo as inverses\<close>

definition restoredBy :: "ChartState \<Rightarrow> ChartState \<Rightarrow> bool" where
  "restoredBy s t = (sameChart s (undo t) \<and> sameChart t (redo (undo t)))"

lemma last_saveHistory:
  "undoStack (saveHistory s) \<noteq> [] \<and> last (undoStack (saveHistory s)) = currentSnapshot s"
proof -
  let ?pushed = "undoStack s @ [currentSnapshot s]"
  have "tl ?pushed \<noteq> [] \<Longrightarrow> last (tl ?pushed) = currentSnapshot s"
    by (simp add: last_tl)
  moreover have "maxHistorySize < length ?pushed \<Longrightarrow> tl ?pushed \<noteq> []"
    by (cases "undoStack s") (simp_all add: maxHistorySize_def)
  ultimately show ?thesis
    by (simp add: saveHistory_def Let_def)
qed

lemma restoredBy_recorded:
  assumes "undoStack t = undoStack (saveHistory s)"
  shows "restoredBy s t"
proof -
  from assms last_saveHistory [of s]
  have ne: "undoStack t \<noteq> []" and top: "last (undoStack t) = currentSnapshot s" by simp_all
  have u: "sameChart s (undo t)"
    using ne top by (simp add: undo_def Let_def sameChart_def applySnapshot_frame currentSnapshot_def)
  have "redoStack (undo t) \<noteq> []" "last (redoStack (undo t)) = currentSnapshot t"
    using ne by (simp_all add: undo_stacks)
  then have "sameChart t (redo (undo t))"
    by (simp add: redo_def Let_def sameChart_def applySnapshot_frame currentSnapshot_def)
  with u show ?thesis by (simp add: restoredBy_def)
qed

lemma restoredBy_same: "sameHistory (saveHistory s) t \<Longrightarrow> restoredBy s t"
  by (rule restoredBy_recorded) (simp add: sameHistory_def)

lemma currentSnapshot_saveHistory [simp]: "currentSnapshot (saveHistory s) = currentSnapshot s"
  by (simp add: currentSnapshot_def saveHistory_def Let_def)

lemma restoredBy_saved_twice: "sameHistory (saveHistory (saveHistory s)) t \<Longrightarrow> restoredBy s t"
proof -
  assume a: "sameHistory (saveHistory (saveHistory s)) t"
  have "undoStack t \<noteq> [] \<and> last (undoStack t) = currentSnapshot s"
    using a last_saveHistory [of "saveHistory s"] by (simp add: sameHistory_def)
  then have "undoStack t \<noteq> []" "last (undoStack t) = currentSnapshot s" by simp_all
  then have u: "sameChart s (undo t)"
    by (simp add: undo_def Let_def sameChart_def applySnapshot_frame currentSnapshot_def)
  have "redoStack (undo t) \<noteq> []" "last (redoStack (undo t)) = currentSnapshot t"
    using \<open>undoStack t \<noteq> []\<close> by (simp_all add: undo_stacks)
  then have "sameChart t (redo (undo t))"
    by (simp add: redo_def Let_def sameChart_def applySnapshot_frame currentSnapshot_def)
  with u show ?thesis by (simp add: restoredBy_def)
qed

text \<open>
  Claim C1, as amended. \<open>restoredBy s t\<close> says that \<^verbatim>\<open>undo()\<close> in \<open>t\<close> gives
  the nodes, positions and drawings of \<open>s\<close>, and that \<^verbatim>\<open>redo()\<close> right after
  gives those of \<open>t\<close>. It holds where \<open>t\<close> is the state after a command that
  records the snapshot itself: \<^verbatim>\<open>addNode\<close>, \<^verbatim>\<open>addMember\<close>, a \<^verbatim>\<open>linkNodes\<close> that
  changes the nodes, \<^verbatim>\<open>deleteSelection\<close> on a non-empty selection, \<^verbatim>\<open>pasteNodes\<close>
  with a non-empty clipboard, \<^verbatim>\<open>autoLayout\<close> and the template loaders called with
  \<^verbatim>\<open>saveState = true\<close>. \<^verbatim>\<open>updateNode\<close>, \<^verbatim>\<open>updateNodePosition\<close>,
  \<^verbatim>\<open>updateNodeDimensions\<close> and \<^verbatim>\<open>unlinkEdge\<close> record nothing; it holds for them
  when \<^verbatim>\<open>saveHistory()\<close> is called right before, as the callers of the service do.
\<close>

theorem undo_redo_inverse_when_recorded:
  "restoredBy s (fst (addNode newId ty x y opts dims s)) \<and>
   restoredBy s (addMember newId s) \<and>
   (linkNodes fuel a b s = Some t \<and> nodes t \<noteq> nodes s \<longrightarrow> restoredBy s t) \<and>
   (selectedNodeIds s \<noteq> [] \<or> selectedDrawingIds s \<noteq> [] \<longrightarrow> restoredBy s (deleteSelection s)) \<and>
   (clipboard s \<noteq> [] \<longrightarrow> restoredBy s (pasteNodes gen shift px py s)) \<and>
   (autoLayout fuel True s = Some t' \<longrightarrow> restoredBy s t') \<and>
   (loadFunctionalChart fuel True s = Some t'' \<longrightarrow> restoredBy s t'') \<and>
   restoredBy s (loadWhiteboard True s) \<and>
   restoredBy s (updateNode upd (saveHistory s)) \<and>
   restoredBy s (updateNodePosition i x y (saveHistory s)) \<and>
   restoredBy s (updateNodeDimensions i w h (saveHistory s)) \<and>
   restoredBy s (unlinkEdge a b (saveHistory s))"
proof -
  have c1: "restoredBy s (fst (addNode newId ty x y opts dims s))"
    by (rule restoredBy_same [OF hist_addNode])
  have c2: "restoredBy s (addMember newId s)"
    by (rule restoredBy_saved_twice [OF hist_addMember])
  have c3: "linkNodes fuel a b s = Some t \<and> nodes t \<noteq> nodes s \<longrightarrow> restoredBy s t"
    using hist_linkNodes [of fuel a b s t] restoredBy_same by auto
  have c4: "selectedNodeIds s \<noteq> [] \<or> selectedDrawingIds s \<noteq> [] \<longrightarrow> restoredBy s (deleteSelection s)"
    by (auto simp: deleteSelection_def Let_def intro!: restoredBy_same)
  have c5: "clipboard s \<noteq> [] \<longrightarrow> restoredBy s (pasteNodes gen shift px py s)"
  proof
    assume ne: "clipboard s \<noteq> []"
    then obtain mx my where m: "minFrom (map itemX (clipboard s)) = Some mx"
      "minFrom (map itemY (clipboard s)) = Some my"
      by (cases "clipboard s") auto
    have "sameHistory (saveHistory s) (pasteNodes gen shift px py s)"
      unfolding pasteNodes_def using m
      apply (simp add: Let_def split: prod.splits)
      apply (intro allI impI conjI)
      apply (rule sameHistory_trans [OF _ hist_foldl_membership]; simp)+
      done
    then show "restoredBy s (pasteNodes gen shift px py s)" by (rule restoredBy_same)
  qed
  have c6: "autoLayout fuel True s = Some t' \<longrightarrow> restoredBy s t'"
    using hist_autoLayout [of fuel True s t'] restoredBy_same by auto
  have c7: "loadFunctionalChart fuel True s = Some t'' \<longrightarrow> restoredBy s t''"
    using hist_loadFunctionalChart [of fuel True s t''] restoredBy_same by auto
  have c8: "restoredBy s (loadWhiteboard True s)"
    using hist_loadWhiteboard [of True s] restoredBy_same by auto
  have c9: "restoredBy s (updateNode upd (saveHistory s))"
    by (rule restoredBy_same [OF hist_updateNode])
  have c10: "restoredBy s (updateNodePosition i x y (saveHistory s))"
    by (rule restoredBy_same [OF hist_updateNodePosition])
  have c11: "restoredBy s (updateNodeDimensions i w h (saveHistory s))"
    by (rule restoredBy_same [OF hist_updateNodeDimensions])
  have c12: "restoredBy s (unlinkEdge a b (saveHistory s))"
    by (rule restoredBy_same [OF hist_unlinkEdge])
  show ?thesis using c1 c2 c3 c4 c5 c6 c7 c8 c9 c10 c11 c12 by blast
qed

definition oneNode :: ChartState where
  "oneNode = fst (addNode ''a'' Employee 0 0 emptyPartial None initialFields)"

lemmas alist_eval =
  DAList.update.rep_eq DAList.empty.rep_eq DAList.lookup.rep_eq DAList.delete.rep_eq
  alist_eq_iff impl_of_mapFromEntries mapKeys_def mapValues_def mapHas_def

lemma oneNode_eval:
  "DAList.impl_of (nodePositions oneNode) =
     [(''a'', \<lparr>pos_x = 0, pos_y = 0, width = Some 208, height = Some 100\<rparr>)]"
  "undoStack oneNode = [currentSnapshot initialFields]"
  "redoStack oneNode = []"
  by (simp_all add: oneNode_def addNode_def Let_def saveHistory_def initialFields_def
      mergeNode_def newNodeDefaults_def emptyPartial_def spread_def newNodeSize_def
      alist_eval maxHistorySize_def currentSnapshot_def)

text \<open>
  Claim C1 as stated fails for a command that records no snapshot: after a node is
  added and then moved with \<^verbatim>\<open>updateNodePosition\<close>, \<^verbatim>\<open>undo()\<close> does not give the
  chart of before the move (it removes the node).
\<close>

theorem undo_after_move_counterexample:
  "\<not> sameChart oneNode (undo (updateNodePosition ''a'' 5 5 oneNode))"
proof -
  have "DAList.impl_of (nodePositions (undo (updateNodePosition ''a'' 5 5 oneNode))) = []"
    by (simp add: undo_def updateNodePosition_def oneNode_eval Let_def applySnapshot_frame
        currentSnapshot_def initialFields_def alist_eval)
  then show ?thesis
    by (auto simp: sameChart_def alist_eq_iff oneNode_eval)
qed

definition twoNodes :: ChartState where
  "twoNodes = fst (addNode ''b'' Employee 300 0 emptyPartial None oneNode)"

definition twoNodesSelected :: ChartState where
  "twoNodesSelected = copySelection (\<lambda>p. (0, 0, 0, 0)) (selectNode ''a'' False twoNodes)"

theorem undo_redo_inverse_when_recorded_witness:
  "restoredBy initialFields oneNode \<and>
   linkNodes 3 ''a'' ''b'' twoNodes \<noteq> None \<and>
   nodes (the (linkNodes 3 ''a'' ''b'' twoNodes)) \<noteq> nodes twoNodes \<and>
   restoredBy twoNodes (the (linkNodes 3 ''a'' ''b'' twoNodes)) \<and>
   selectedNodeIds twoNodesSelected \<noteq> [] \<and>
   restoredBy twoNodesSelected (deleteSelection twoNodesSelected) \<and>
   clipboard twoNodesSelected \<noteq> [] \<and>
   restoredBy twoNodesSelected (pasteNodes (\<lambda>n. ''c'') (\<lambda>p dx dy. p) 10 10 twoNodesSelected) \<and>
   autoLayout 3 True twoNodes \<noteq> None \<and>
   restoredBy twoNodes (the (autoLayout 3 True twoNodes)) \<and>
   loadFunctionalChart 4 True twoNodes \<noteq> None \<and>
   restoredBy twoNodes (the (loadFunctionalChart 4 True twoNodes)) \<and>
   restoredBy twoNodes (updateNodePosition ''a'' 5 5 (saveHistory twoNodes))"
proof -
  have l: "linkNodes 3 ''a'' ''b'' twoNodes \<noteq> None"
    and n: "nodes (the (linkNodes 3 ''a'' ''b'' twoNodes)) \<noteq> nodes twoNodes"
    and sl: "selectedNodeIds twoNodesSelected \<noteq> []"
    and cl: "clipboard twoNodesSelected \<noteq> []"
    and al: "autoLayout 3 True twoNodes \<noteq> None"
    by code_simp+
  have lf: "loadFunctionalChart 4 True twoNodes \<noteq> None"
    by code_simp
  show ?thesis
    using undo_redo_inverse_when_recorded
      [where s = initialFields and newId = "''a''" and ty = Employee and x = 0 and y = 0
         and opts = emptyPartial and dims = None]
      undo_redo_inverse_when_recorded
      [where s = twoNodes and fuel = 3 and a = "''a''" and b = "''b''"
         and t = "the (linkNodes 3 ''a'' ''b'' twoNodes)"
         and t' = "the (autoLayout 3 True twoNodes)"
         and i = "''a''" and x = 5 and y = 5]
      undo_redo_inverse_when_recorded
      [where s = twoNodes and fuel = 4
         and t'' = "the (loadFunctionalChart 4 True twoNodes)"]
      undo_redo_inverse_when_recorded
      [where s = twoNodesSelected and gen = "\<lambda>n. ''c''" and shift = "\<lambda>p dx dy. p"
         and px = 10 and py = 10]
      l n sl cl al lf
    by (auto simp: oneNode_def)
qed

section \<open>Loops that rewrite a node map in place\<close>

text \<open>A node map is keyed when every node is stored under its own \<^verbatim>\<open>id\<close>.\<close>

definition keyed :: "(string, ChartNode) alist \<Rightarrow> bool" where
  "keyed m = list_all (\<lambda>(k, n). node_id n = k) (DAList.impl_of m)"

lemma lookup_Some_iff: "DAList.lookup m k = Some v \<longleftrightarrow> (k, v) \<in> set (DAList.impl_of m)"
  by (simp add: DAList.lookup.rep_eq)

lemma keyed_iff: "keyed m \<longleftrightarrow> (\<forall>k n. DAList.lookup m k = Some n \<longrightarrow> node_id n = k)"
  by (auto simp: keyed_def lookup_Some_iff list_all_iff)

lemma keyedD: "keyed m \<Longrightarrow> DAList.lookup m k = Some n \<Longrightarrow> node_id n = k"
  by (simp add: keyed_iff)

lemma mapKeys_lookup: "k \<in> set (mapKeys m) \<longleftrightarrow> DAList.lookup m k \<noteq> None"
  by (simp add: mapKeys_def DAList.lookup.rep_eq map_of_eq_None_iff)

text \<open>A loop over the keys of a map that rewrites each entry in place.\<close>

lemma foldl_inplace:
  assumes step: "\<And>m k. keyed m \<Longrightarrow>
      keyed (step m k) \<and>
      DAList.lookup (step m k) = (\<lambda>x. if x = k then map_option f (DAList.lookup m x) else DAList.lookup m x)"
    and idem: "\<And>n. f (f n) = f n"
    and "keyed m"
  shows "keyed (foldl step m ks) \<and>
     DAList.lookup (foldl step m ks) x =
       (if x \<in> set ks then map_option f (DAList.lookup m x) else DAList.lookup m x)"
  using assms(3)
proof (induction ks arbitrary: m)
  case Nil
  then show ?case by simp
next
  case (Cons k ks)
  from step [OF Cons.prems, of k]
  have k1: "keyed (step m k)"
    and l1: "DAList.lookup (step m k) = (\<lambda>x. if x = k then map_option f (DAList.lookup m x) else DAList.lookup m x)"
    by simp_all
  from Cons.IH [OF k1] show ?case
    by (auto simp: l1 idem option.map_comp comp_def)
qed

definition renameOne :: "string \<Rightarrow> string \<Rightarrow> ChartNode \<Rightarrow> ChartNode" where
  "renameOne oldName newName n =
     (if department n = Some oldName then n\<lparr>department := Some newName\<rparr> else n)"

lemma renameStep_keyed:
  assumes "keyed m"
  shows "keyed (renameStep a b m k) \<and>
    DAList.lookup (renameStep a b m k) =
      (\<lambda>x. if x = k then map_option (renameOne a b) (DAList.lookup m x) else DAList.lookup m x)"
proof (cases "DAList.lookup m k")
  case None
  then show ?thesis using assms by (auto simp: renameStep_def)
next
  case (Some n)
  then have i: "node_id n = k" using assms by (rule keyedD [rotated])
  show ?thesis
    using assms Some i
    by (auto simp: renameStep_def renameOne_def keyed_iff DAList.lookup_update fun_eq_iff)
qed

lemma renameMembers_lookup:
  assumes "keyed m"
  shows "keyed (renameMembers a b m)"
    and "DAList.lookup (renameMembers a b m) x = map_option (renameOne a b) (DAList.lookup m x)"
proof -
  have idem: "\<And>n. renameOne a b (renameOne a b n) = renameOne a b n"
    by (simp add: renameOne_def)
  note r = foldl_inplace [of "renameStep a b" "renameOne a b" m "mapKeys m" x,
      OF renameStep_keyed idem assms]
  show "keyed (renameMembers a b m)" using r by (simp add: renameMembers_def)
  show "DAList.lookup (renameMembers a b m) x = map_option (renameOne a b) (DAList.lookup m x)"
    using r by (cases "DAList.lookup m x") (auto simp: renameMembers_def mapKeys_lookup)
qed

section \<open>Renaming a group\<close>

lemma mergeNode_id: "p_node_id upd = None \<Longrightarrow> node_id (mergeNode node upd) = node_id node"
  by (simp add: mergeNode_def spread_def)

lemma keyed_update: "keyed m \<Longrightarrow> node_id n = k \<Longrightarrow> keyed (DAList.update k n m)"
  by (auto simp: keyed_iff DAList.lookup_update split: if_splits)

text \<open>What one step of \<^verbatim>\<open>updateNode\<close> does to the entry of another key.\<close>

lemma updateNodeStep_other:
  assumes "keyed m" "p_node_id upd = None" "x \<noteq> i"
  shows "keyed (updateNodeStep upd m i)"
    and "DAList.lookup (updateNodeStep upd m i) x = DAList.lookup m x \<or>
         (\<exists>node newName. DAList.lookup m i = Some node \<and> p_name upd = Some newName \<and>
            ntype node = Group \<and> newName \<noteq> [] \<and> name node \<noteq> newName \<and>
            DAList.lookup (updateNodeStep upd m i) x =
              map_option (renameOne (name node) newName) (DAList.lookup m x))"
proof -
  show "keyed (updateNodeStep upd m i)"
  proof (cases "DAList.lookup m i")
    case None
    then show ?thesis using assms by (simp add: updateNodeStep_def)
  next
    case (Some node)
    then have "node_id (mergeNode node upd) = i"
      using assms keyedD [of m i node] by (simp add: mergeNode_id)
    then show ?thesis
      using assms Some
      by (auto simp: updateNodeStep_def Let_def renameMembers_lookup
          intro!: keyed_update split: option.splits)
  qed
  show "DAList.lookup (updateNodeStep upd m i) x = DAList.lookup m x \<or>
         (\<exists>node newName. DAList.lookup m i = Some node \<and> p_name upd = Some newName \<and>
            ntype node = Group \<and> newName \<noteq> [] \<and> name node \<noteq> newName \<and>
            DAList.lookup (updateNodeStep upd m i) x =
              map_option (renameOne (name node) newName) (DAList.lookup m x))"
    using assms
    by (auto simp: updateNodeStep_def Let_def renameMembers_lookup split: option.splits)
qed

lemma updateNodeStep_renames:
  assumes "keyed m" "x \<noteq> g" "DAList.lookup m g = Some grp" "ntype grp = Group"
    "p_name upd = Some newName" "newName \<noteq> []" "name grp \<noteq> newName"
  shows "DAList.lookup (updateNodeStep upd m g) x =
     map_option (renameOne (name grp) newName) (DAList.lookup m x)"
  using assms by (simp add: updateNodeStep_def Let_def renameMembers_lookup)

text \<open>After the group has been processed, the member keeps the new department.\<close>

lemma updateNode_fold_after:
  assumes "p_node_id upd = None" "p_name upd = Some newName" "k \<notin> set ids"
    "keyed m" "DAList.lookup m k = Some n" "department n = Some newName"
  shows "DAList.lookup (foldl (updateNodeStep upd) m ids) k = Some n"
  using assms(3-)
proof (induction ids arbitrary: m)
  case Nil
  then show ?case by simp
next
  case (Cons i ids)
  from Cons.prems have ki: "k \<noteq> i" by auto
  have kd: "keyed (updateNodeStep upd m i)"
    using updateNodeStep_other(1) [OF Cons.prems(2) assms(1) ki] .
  have "DAList.lookup (updateNodeStep upd m i) k = Some n"
    using updateNodeStep_other(2) [OF Cons.prems(2) assms(1) ki] Cons.prems assms(2)
    by (auto simp: renameOne_def)
  from Cons.IH [OF _ kd this Cons.prems(4)] Cons.prems(1) show ?case by simp
qed

text \<open>Before the group is processed, the member has the old or the new department,
  and the group keeps its name and type.\<close>

lemma updateNode_fold_rename:
  assumes "p_node_id upd = None" "p_name upd = Some newName" "newName \<noteq> []"
    "oldName \<noteq> newName" "department n = Some oldName"
    "k \<notin> set ids" "g \<in> set ids"
    "keyed m" "DAList.lookup m g = Some grp" "name grp = oldName" "ntype grp = Group"
    "DAList.lookup m k = Some n \<or> DAList.lookup m k = Some (n\<lparr>department := Some newName\<rparr>)"
  shows "DAList.lookup (foldl (updateNodeStep upd) m ids) k = Some (n\<lparr>department := Some newName\<rparr>)"
  using assms(6-)
proof (induction ids arbitrary: m grp)
  case Nil
  then show ?case by simp
next
  case (Cons i ids)
  from Cons.prems have ki: "k \<noteq> i" and kids: "k \<notin> set ids" by auto
  have kg: "k \<noteq> g" using Cons.prems by auto
  have kd: "keyed (updateNodeStep upd m i)"
    using updateNodeStep_other(1) [OF Cons.prems(3) assms(1) ki] .
  show ?case
  proof (cases "i = g")
    case True
    have "DAList.lookup (updateNodeStep upd m g) k =
        map_option (renameOne (name grp) newName) (DAList.lookup m k)"
      using updateNodeStep_renames [OF Cons.prems(3) kg Cons.prems(4) Cons.prems(6) assms(2) assms(3)]
        Cons.prems(5) assms(4) by simp
    then have "DAList.lookup (updateNodeStep upd m i) k = Some (n\<lparr>department := Some newName\<rparr>)"
      using Cons.prems(7) Cons.prems(5) assms(4,5) True by (auto simp: renameOne_def)
    from updateNode_fold_after [OF assms(1) assms(2) kids kd this] show ?thesis by simp
  next
    case False
    then have gids: "g \<in> set ids" using Cons.prems by auto
    have step_k: "DAList.lookup (updateNodeStep upd m i) k = Some n \<or>
        DAList.lookup (updateNodeStep upd m i) k = Some (n\<lparr>department := Some newName\<rparr>)"
      using updateNodeStep_other(2) [OF Cons.prems(3) assms(1) ki] Cons.prems(7) assms(2,5)
      by (auto simp: renameOne_def)
    have gi: "g \<noteq> i" using False by simp
    obtain grp' where g': "DAList.lookup (updateNodeStep upd m i) g = Some grp'"
      "name grp' = oldName" "ntype grp' = Group"
      using updateNodeStep_other(2) [OF Cons.prems(3) assms(1) gi] Cons.prems(4,5,6)
      by (auto simp: renameOne_def)
    from Cons.IH [OF kids gids kd g' step_k] show ?thesis by simp
  qed
qed

text \<open>
  Claim C8, as amended. In a keyed node map, \<^verbatim>\<open>updateNode\<close> with a name that is not
  empty and differs from the name of a selected group (and with no \<^verbatim>\<open>id\<close> key)
  gives every node outside the selection whose department was the old name of the group
  the new name as department, and changes nothing else of that node.
\<close>

theorem rename_propagates_to_members:
  assumes "keyed (nodes s)"
    and "g \<in> set (selectedNodeIds s)"
    and "DAList.lookup (nodes s) g = Some grp"
    and "ntype grp = Group"
    and "p_name upd = Some newName"
    and "newName \<noteq> []"
    and "newName \<noteq> name grp"
    and "p_node_id upd = None"
    and "k \<notin> set (selectedNodeIds s)"
    and "DAList.lookup (nodes s) k = Some n"
    and "department n = Some (name grp)"
  shows "DAList.lookup (nodes (updateNode upd s)) k = Some (n\<lparr>department := Some newName\<rparr>)"
proof -
  have ne: "selectedNodeIds s \<noteq> []" using assms(2) by auto
  have "DAList.lookup (foldl (updateNodeStep upd) (nodes s) (selectedNodeIds s)) k =
      Some (n\<lparr>department := Some newName\<rparr>)"
    by (rule updateNode_fold_rename [where oldName = "name grp" and g = g and grp = grp])
       (use assms in auto)
  then show ?thesis using ne by (simp add: updateNode_def)
qed

definition salesChart :: ChartState where
  "salesChart =
     initialFields
       \<lparr>nodes := mapFromEntries
          [(''g'', templateGroup ''g'' ''Sales''),
           (''e1'', templateNode ''e1'' ''Ann'' ''Rep'' Employee ''Sales'' []),
           (''e2'', templateNode ''e2'' ''Bob'' ''Rep'' Employee ''Sales'' []),
           (''e3'', templateNode ''e3'' ''Cy'' ''Rep'' Employee ''Sales'' [])],
        selectedNodeIds := [''g'']\<rparr>"

definition renameTo :: "string \<Rightarrow> PartialNode" where
  "renameTo newName = emptyPartial\<lparr>p_name := Some newName\<rparr>"

theorem rename_propagates_to_members_witness:
  "keyed (nodes salesChart) \<and>
   DAList.lookup (nodes salesChart) ''g'' = Some (templateGroup ''g'' ''Sales'') \<and>
   DAList.lookup (nodes salesChart) ''e1'' =
     Some (templateNode ''e1'' ''Ann'' ''Rep'' Employee ''Sales'' []) \<and>
   DAList.lookup (nodes (updateNode (renameTo ''Marketing'') salesChart)) ''e1'' =
     Some ((templateNode ''e1'' ''Ann'' ''Rep'' Employee ''Sales'' [])\<lparr>department := Some ''Marketing''\<rparr>) \<and>
   DAList.lookup (nodes (updateNode (renameTo ''Marketing'') salesChart)) ''e2'' =
     Some ((templateNode ''e2'' ''Bob'' ''Rep'' Employee ''Sales'' [])\<lparr>department := Some ''Marketing''\<rparr>) \<and>
   DAList.lookup (nodes (updateNode (renameTo ''Marketing'') salesChart)) ''e3'' =
     Some ((templateNode ''e3'' ''Cy'' ''Rep'' Employee ''Sales'' [])\<lparr>department := Some ''Marketing''\<rparr>)"
proof -
  have k: "keyed (nodes salesChart)"
    and g: "DAList.lookup (nodes salesChart) ''g'' = Some (templateGroup ''g'' ''Sales'')"
    and e1: "DAList.lookup (nodes salesChart) ''e1'' =
      Some (templateNode ''e1'' ''Ann'' ''Rep'' Employee ''Sales'' [])"
    and e2: "DAList.lookup (nodes salesChart) ''e2'' =
      Some (templateNode ''e2'' ''Bob'' ''Rep'' Employee ''Sales'' [])"
    and e3: "DAList.lookup (nodes salesChart) ''e3'' =
      Some (templateNode ''e3'' ''Cy'' ''Rep'' Employee ''Sales'' [])"
    by (simp_all add: salesChart_def keyed_def impl_of_mapFromEntries DAList.lookup.rep_eq
        templateGroup_def templateNode_def)
  have sel: "selectedNodeIds salesChart = [''g'']"
    by (simp add: salesChart_def)
  note th = rename_propagates_to_members [OF k _ g, of "renameTo ''Marketing''" "''Marketing''"]
  have r1: "DAList.lookup (nodes (updateNode (renameTo ''Marketing'') salesChart)) ''e1'' =
     Some ((templateNode ''e1'' ''Ann'' ''Rep'' Employee ''Sales'' [])\<lparr>department := Some ''Marketing''\<rparr>)"
    by (rule th [OF _ _ _ _ _ _ _ e1])
       (simp_all add: sel renameTo_def emptyPartial_def templateGroup_def templateNode_def)
  have r2: "DAList.lookup (nodes (updateNode (renameTo ''Marketing'') salesChart)) ''e2'' =
     Some ((templateNode ''e2'' ''Bob'' ''Rep'' Employee ''Sales'' [])\<lparr>department := Some ''Marketing''\<rparr>)"
    by (rule th [OF _ _ _ _ _ _ _ e2])
       (simp_all add: sel renameTo_def emptyPartial_def templateGroup_def templateNode_def)
  have r3: "DAList.lookup (nodes (updateNode (renameTo ''Marketing'') salesChart)) ''e3'' =
     Some ((templateNode ''e3'' ''Cy'' ''Rep'' Employee ''Sales'' [])\<lparr>department := Some ''Marketing''\<rparr>)"
    by (rule th [OF _ _ _ _ _ _ _ e3])
       (simp_all add: sel renameTo_def emptyPartial_def templateGroup_def templateNode_def)
  show ?thesis using k g e1 r1 r2 r3 by simp
qed

text \<open>
  Claim C8 as stated fails for the empty name: the guard \<^verbatim>\<open>updatedNode.name &&\<close>
  skips the propagation, so the group is renamed and its members keep the old
  department.
\<close>

theorem rename_to_empty_counterexample:
  "map_option name (DAList.lookup (nodes (updateNode (renameTo []) salesChart)) ''g'') = Some [] \<and>
   map_option department (DAList.lookup (nodes (updateNode (renameTo []) salesChart)) ''e1'') =
     Some (Some ''Sales'')"
  by (simp add: salesChart_def keyed_def impl_of_mapFromEntries DAList.lookup.rep_eq
        templateGroup_def templateNode_def updateNode_def updateNodeStep_def renameTo_def
        emptyPartial_def mergeNode_def spread_def initialFields_def DAList.update.rep_eq)

section \<open>Membership of one node\<close>












section \<open>Acyclicity of the children adjacency\<close>

text \<open>The children adjacency of a node map: an edge leads from the key of a node to
  each identifier in its \<^verbatim>\<open>children\<close>.\<close>

definition edgeRel :: "(string, ChartNode) alist \<Rightarrow> (string \<times> string) set" where
  "edgeRel m = {(k, c). \<exists>node. DAList.lookup m k = Some node \<and> c \<in> set (childList node)}"

lemma edgeRel_iff:
  "(k, c) \<in> edgeRel m \<longleftrightarrow> (\<exists>node. DAList.lookup m k = Some node \<and> c \<in> set (childList node))"
  by (simp add: edgeRel_def)

lemma trancl_first_step:
  "(r, x) \<in> E\<^sup>+ \<longleftrightarrow> (\<exists>c. (r, c) \<in> E \<and> (c = x \<or> (c, x) \<in> E\<^sup>+))"
proof
  assume "(r, x) \<in> E\<^sup>+"
  then obtain c where "(r, c) \<in> E" "(c, x) \<in> E\<^sup>*"
    by (auto dest: tranclD)
  then show "\<exists>c. (r, c) \<in> E \<and> (c = x \<or> (c, x) \<in> E\<^sup>+)"
    by (auto simp: rtrancl_eq_or_trancl)
next
  assume "\<exists>c. (r, c) \<in> E \<and> (c = x \<or> (c, x) \<in> E\<^sup>+)"
  then show "(r, x) \<in> E\<^sup>+" by (auto intro: trancl_into_trancl2)
qed

lemma edges_from:
  "(\<exists>c. (r, c) \<in> edgeRel m \<and> P c) \<longleftrightarrow>
   (\<exists>node. DAList.lookup m r = Some node \<and> (\<exists>c\<in>set (childList node). P c))"
  by (auto simp: edgeRel_iff)

lemma isDescendant_sound:
  "isDescendant n m r x = Some b \<Longrightarrow> b = ((r, x) \<in> (edgeRel m)\<^sup>+)"
  "isDescendantLoop n m cs x = Some b \<Longrightarrow> b = (\<exists>c\<in>set cs. c = x \<or> (c, x) \<in> (edgeRel m)\<^sup>+)"
proof (induction n m r x and n m cs x arbitrary: b and b rule: isDescendant_isDescendantLoop.induct)
  case (1 m rootId searchId)
  then show ?case by simp
next
  case (2 n m rootId searchId)
  show ?case
  proof (cases "DAList.lookup m rootId")
    case None
    then have "(rootId, searchId) \<notin> (edgeRel m)\<^sup>+"
      by (subst trancl_first_step) (simp add: edgeRel_iff)
    with 2 None show ?thesis by simp
  next
    case (Some node)
    show ?thesis
    proof (cases "children node")
      case None
      then have "childList node = []" by (simp add: childList_def)
      then have "(rootId, searchId) \<notin> (edgeRel m)\<^sup>+"
        using Some by (subst trancl_first_step) (simp add: edgeRel_iff)
      with 2 None Some show ?thesis by simp
    next
      case (Some cs)
      then have cl: "childList node = cs" by (simp add: childList_def)
      from "2.prems" \<open>DAList.lookup m rootId = Some node\<close> Some
      have "isDescendantLoop n m cs searchId = Some b" by simp
      from "2.IH" [OF \<open>DAList.lookup m rootId = Some node\<close> Some this]
      have "b = (\<exists>c\<in>set cs. c = searchId \<or> (c, searchId) \<in> (edgeRel m)\<^sup>+)" .
      also have "\<dots> = ((rootId, searchId) \<in> (edgeRel m)\<^sup>+)"
        by (subst (2) trancl_first_step)
           (simp add: edges_from \<open>DAList.lookup m rootId = Some node\<close> cl)
      finally show ?thesis .
    qed
  qed
next
  case (3 n m searchId)
  then show ?case by simp
next
  case (4 n m childId cs searchId)
  show ?case
  proof (cases "childId = searchId")
    case True
    with 4 show ?thesis by auto
  next
    case False
    show ?thesis
    proof (cases "isDescendant n m childId searchId")
      case None
      with 4 False show ?thesis by simp
    next
      case (Some d)
      from "4.IH"(1) [OF False Some] have d: "d = ((childId, searchId) \<in> (edgeRel m)\<^sup>+)" .
      show ?thesis
      proof (cases d)
        case True
        with "4.prems" False Some d show ?thesis by auto
      next
        case False
        with "4.prems" \<open>childId \<noteq> searchId\<close> Some
        have "isDescendantLoop n m cs searchId = Some b" by simp
        from "4.IH"(2) [OF \<open>childId \<noteq> searchId\<close> Some _ this] False
        have "b = (\<exists>c\<in>set cs. c = searchId \<or> (c, searchId) \<in> (edgeRel m)\<^sup>+)" by simp
        with False d \<open>childId \<noteq> searchId\<close> show ?thesis by simp
      qed
    qed
  qed
qed

lemma isDescendant_returns_aux:
  shows "acyclic (edgeRel m) \<Longrightarrow> A \<subseteq> set (mapKeys m) \<Longrightarrow> \<forall>a\<in>A. (a, r) \<in> (edgeRel m)\<^sup>+ \<Longrightarrow>
         card (set (mapKeys m) - A) < n \<Longrightarrow> isDescendant n m r x \<noteq> None"
    and "acyclic (edgeRel m) \<Longrightarrow> A \<subseteq> set (mapKeys m) \<Longrightarrow> \<forall>a\<in>A. \<forall>c\<in>set cs. (a, c) \<in> (edgeRel m)\<^sup>+ \<Longrightarrow>
         card (set (mapKeys m) - A) < n \<Longrightarrow> isDescendantLoop n m cs x \<noteq> None"
proof (induction n m r x and n m cs x arbitrary: A and A rule: isDescendant_isDescendantLoop.induct)
  case (1 m rootId searchId)
  then show ?case by simp
next
  case (2 n m rootId searchId)
  show ?case
  proof (cases "DAList.lookup m rootId")
    case None
    then show ?thesis by simp
  next
    case (Some node)
    show ?thesis
    proof (cases "children node")
      case None
      with Some show ?thesis by simp
    next
      case (Some cs)
      note node = \<open>DAList.lookup m rootId = Some node\<close>
      have cl: "childList node = cs" using Some by (simp add: childList_def)
      have rk: "rootId \<in> set (mapKeys m)" using node by (simp add: mapKeys_lookup)
      have rA: "rootId \<notin> A"
      proof
        assume "rootId \<in> A"
        with "2.prems"(3) have "(rootId, rootId) \<in> (edgeRel m)\<^sup>+" by blast
        then show False using "2.prems"(1) by (auto simp: acyclic_def)
      qed
      let ?A = "insert rootId A"
      have sub: "?A \<subseteq> set (mapKeys m)" using rk "2.prems"(2) by simp
      have reach: "\<forall>a\<in>?A. \<forall>c\<in>set cs. (a, c) \<in> (edgeRel m)\<^sup>+"
      proof (intro ballI)
        fix a c assume a: "a \<in> ?A" and c: "c \<in> set cs"
        have e: "(rootId, c) \<in> edgeRel m" using node cl c by (auto simp: edgeRel_iff)
        show "(a, c) \<in> (edgeRel m)\<^sup>+"
        proof (cases "a = rootId")
          case True
          with e show ?thesis by auto
        next
          case False
          with a "2.prems"(3) have "(a, rootId) \<in> (edgeRel m)\<^sup>+" by simp
          with e show ?thesis by (meson trancl_into_trancl)
        qed
      qed
      have eq: "set (mapKeys m) - ?A = (set (mapKeys m) - A) - {rootId}" by auto
      have "rootId \<in> set (mapKeys m) - A" using rk rA by simp
      then have "card ((set (mapKeys m) - A) - {rootId}) < card (set (mapKeys m) - A)"
        by (intro card_Diff1_less) auto
      with eq have "card (set (mapKeys m) - ?A) < card (set (mapKeys m) - A)"
        by simp
      with "2.prems"(4) have cd: "card (set (mapKeys m) - ?A) < n" by simp
      from "2.IH" [OF node Some "2.prems"(1) sub reach cd] node Some show ?thesis by simp
    qed
  qed
next
  case (3 n m searchId)
  then show ?case by simp
next
  case (4 n m childId cs searchId)
  show ?case
  proof (cases "childId = searchId")
    case True
    then show ?thesis by simp
  next
    case False
    have "isDescendant n m childId searchId \<noteq> None"
      using "4.IH"(1) [OF False "4.prems"(1) "4.prems"(2) _ "4.prems"(4)] "4.prems"(3) by simp
    then obtain d where d: "isDescendant n m childId searchId = Some d" by auto
    show ?thesis
    proof (cases d)
      case True
      with d False show ?thesis by simp
    next
      case dF: False
      have "isDescendantLoop n m cs searchId \<noteq> None"
        using "4.IH"(2) [OF False d _ "4.prems"(1) "4.prems"(2) _ "4.prems"(4)] dF "4.prems"(3) by simp
      with d dF False show ?thesis by simp
    qed
  qed
qed

lemma isDescendant_returns:
  assumes "acyclic (edgeRel m)" "length (mapKeys m) < fuel"
  shows "isDescendant fuel m r x = Some ((r, x) \<in> (edgeRel m)\<^sup>+)"
proof -
  have "card (set (mapKeys m) - {}) \<le> length (mapKeys m)" by (simp add: card_length)
  with assms(2) have "card (set (mapKeys m) - {}) < fuel" by simp
  from isDescendant_returns_aux(1) [OF assms(1) _ _ this, of r x]
  obtain b where b: "isDescendant fuel m r x = Some b" by auto
  with isDescendant_sound(1) [OF b] show ?thesis by simp
qed

text \<open>\<^verbatim>\<open>removeFromParent\<close> in a keyed map.\<close>

definition dropChild :: "string \<Rightarrow> ChartNode \<Rightarrow> ChartNode" where
  "dropChild childId node =
     (if childId \<in> set (childList node)
      then node\<lparr>children := Some (filter (\<lambda>c. c \<noteq> childId) (childList node))\<rparr>
      else node)"

lemma childList_dropChild: "childList (dropChild c node) = filter (\<lambda>x. x \<noteq> c) (childList node)"
proof (cases "c \<in> set (childList node)")
  case True
  then show ?thesis by (simp add: dropChild_def childList_def)
next
  case False
  then have "filter (\<lambda>x. x \<noteq> c) (childList node) = childList node"
    by (intro filter_True) auto
  with False show ?thesis by (simp add: dropChild_def)
qed

lemma node_id_dropChild [simp]: "node_id (dropChild c node) = node_id node"
  by (simp add: dropChild_def)

lemma removeFromParentStep_keyed:
  assumes "keyed m"
  shows "keyed (removeFromParentStep c m k) \<and>
    DAList.lookup (removeFromParentStep c m k) =
      (\<lambda>x. if x = k then map_option (dropChild c) (DAList.lookup m x) else DAList.lookup m x)"
proof (cases "DAList.lookup m k")
  case None
  then show ?thesis using assms by (auto simp: removeFromParentStep_def)
next
  case (Some n)
  then have i: "node_id n = k" using assms by (rule keyedD [rotated])
  show ?thesis
    using assms Some i
    by (auto simp: removeFromParentStep_def dropChild_def keyed_iff DAList.lookup_update fun_eq_iff)
qed

lemma removeFromParent_lookup:
  assumes "keyed m"
  shows "keyed (removeFromParent c m)"
    and "DAList.lookup (removeFromParent c m) x = map_option (dropChild c) (DAList.lookup m x)"
proof -
  have idem: "\<And>n. dropChild c (dropChild c n) = dropChild c n"
  proof -
    fix n
    have "c \<notin> set (childList (dropChild c n))" by (simp add: childList_dropChild)
    then show "dropChild c (dropChild c n) = dropChild c n"
      by (subst dropChild_def) simp
  qed
  note r = foldl_inplace [of "removeFromParentStep c" "dropChild c" m "mapKeys m" x,
      OF removeFromParentStep_keyed idem assms]
  show "keyed (removeFromParent c m)" using r by (simp add: removeFromParent_def)
  show "DAList.lookup (removeFromParent c m) x = map_option (dropChild c) (DAList.lookup m x)"
    using r by (cases "DAList.lookup m x") (auto simp: removeFromParent_def mapKeys_lookup)
qed

lemma linkInMap_keyed: "keyed m \<Longrightarrow> keyed (linkInMap a b m)"
  by (auto simp: linkInMap_def removeFromParent_lookup keyedD intro!: keyed_update split: option.splits)

lemma childList_children_update [simp]: "childList (n\<lparr>children := Some cs\<rparr>) = cs"
  by (simp add: childList_def)

lemma linkInMap_edges:
  assumes "keyed m"
  shows "edgeRel (linkInMap a b m) \<subseteq> insert (a, b) (edgeRel m)"
proof (cases "DAList.lookup m a")
  case None
  then show ?thesis by (auto simp: linkInMap_def)
next
  case (Some node)
  show ?thesis
  proof
    fix e assume e: "e \<in> edgeRel (linkInMap a b m)"
    obtain k c where kc: "e = (k, c)" by (cases e)
    from e kc obtain n' where n': "DAList.lookup (linkInMap a b m) k = Some n'"
      "c \<in> set (childList n')" by (auto simp: edgeRel_iff)
    show "e \<in> insert (a, b) (edgeRel m)"
    proof (cases "k = a")
      case True
      with n' Some have "c \<in> set (childList node @ [b])"
        by (auto simp: linkInMap_def)
      with True Some kc show ?thesis by (auto simp: edgeRel_iff)
    next
      case False
      with n' Some assms obtain z where z: "DAList.lookup m k = Some z" "n' = dropChild b z"
        by (auto simp: linkInMap_def removeFromParent_lookup)
      with n'(2) have "c \<in> set (childList z)" by (simp add: childList_dropChild)
      with z kc show ?thesis by (auto simp: edgeRel_iff)
    qed
  qed
qed

lemma linkInMap_keys: "keyed m \<Longrightarrow> set (mapKeys (linkInMap a b m)) = set (mapKeys m)"
  by (auto simp: mapKeys_lookup linkInMap_def removeFromParent_lookup DAList.lookup_update
      split: option.splits if_splits)

lemma length_mapKeys: "length (mapKeys m) = card (set (mapKeys m))"
  using distinct_card [of "map fst (DAList.impl_of m)"] by (simp add: mapKeys_def)

lemma linkInMap_acyclic:
  assumes "keyed m" "acyclic (edgeRel m)" "a \<noteq> b" "(b, a) \<notin> (edgeRel m)\<^sup>+"
  shows "acyclic (edgeRel (linkInMap a b m))"
proof -
  have "(b, a) \<notin> (edgeRel m)\<^sup>*" using assms(3,4) by (auto simp: rtrancl_eq_or_trancl)
  then have "acyclic (insert (a, b) (edgeRel m))" using assms(2) by simp
  then show ?thesis using linkInMap_edges [OF assms(1)] by (rule acyclic_subset)
qed

lemma nodes_saveHistory [simp]: "nodes (saveHistory s) = nodes s"
  by (simp add: saveHistory_def Let_def)

text \<open>One \<^verbatim>\<open>linkNodes\<close> call in a keyed, acyclic node map.\<close>

lemma linkNodes_step:
  assumes "keyed (nodes s)" "acyclic (edgeRel (nodes s))" "linkNodes fuel a b s = Some t"
  shows "keyed (nodes t) \<and> acyclic (edgeRel (nodes t)) \<and>
         set (mapKeys (nodes t)) = set (mapKeys (nodes s))"
proof (cases "t = s")
  case True
  with assms show ?thesis by simp
next
  case False
  with assms(3) have ab: "a \<noteq> b"
    and d: "isDescendant fuel (nodes s) b a = Some False"
    and t: "t = (saveHistory s)\<lparr>nodes := linkInMap a b (nodes s)\<rparr>"
    by (auto simp: linkNodes_def Let_def split: if_splits option.splits bool.splits)
  from isDescendant_sound(1) [OF d] have "(b, a) \<notin> (edgeRel (nodes s))\<^sup>+" by simp
  with assms(1,2) ab show ?thesis
    by (simp add: t linkInMap_keyed linkInMap_acyclic linkInMap_keys)
qed

text \<open>Sequences of \<^verbatim>\<open>linkNodes\<close> calls.\<close>

definition onlyLinks :: "ChartState \<Rightarrow> command \<Rightarrow> bool" where
  "onlyLinks st c = (case c of LinkNodes a b \<Rightarrow> True | _ \<Rightarrow> False)"

lemma reach_links:
  assumes "reach onlyLinks bounds shift s t"
  shows "keyed (nodes s) \<Longrightarrow> acyclic (edgeRel (nodes s)) \<Longrightarrow>
         keyed (nodes t) \<and> acyclic (edgeRel (nodes t)) \<and>
         set (mapKeys (nodes t)) = set (mapKeys (nodes s))"
  using assms
proof (induction rule: reach.induct)
  case reach_start
  then show ?case by simp
next
  case (reach_step t c fuel u)
  from reach_step.hyps(2) obtain a b where c: "c = LinkNodes a b"
    by (cases c) (simp_all add: onlyLinks_def)
  from reach_step.IH [OF reach_step.prems]
  have k: "keyed (nodes t)" and ac: "acyclic (edgeRel (nodes t))"
    and ks: "set (mapKeys (nodes t)) = set (mapKeys (nodes s))" by simp_all
  from reach_step.hyps(3) c have "linkNodes fuel a b t = Some u" by simp
  from linkNodes_step [OF k ac this] ks show ?case by simp
qed

text \<open>
  Claim C3, as amended. From a keyed node map whose children adjacency is acyclic, every
  state reached by \<^verbatim>\<open>linkNodes\<close> calls has an acyclic adjacency. With a recursion bound
  above the number of nodes the call returns, and it returns the state unchanged when
  the prospective parent \<open>a\<close> is among the descendants of the prospective child
  \<open>b\<close>.
\<close>

theorem linkNodes_keeps_acyclic:
  assumes "keyed (nodes s)" and "acyclic (edgeRel (nodes s))"
  shows "(reach onlyLinks bounds shift s t \<longrightarrow> acyclic (edgeRel (nodes t))) \<and>
         (length (mapKeys (nodes s)) < fuel \<longrightarrow> linkNodes fuel a b s \<noteq> None) \<and>
         (length (mapKeys (nodes s)) < fuel \<and> (b, a) \<in> (edgeRel (nodes s))\<^sup>+ \<longrightarrow>
            linkNodes fuel a b s = Some s)"
proof (intro conjI impI)
  assume "reach onlyLinks bounds shift s t"
  from reach_links [OF this assms] show "acyclic (edgeRel (nodes t))" by simp
next
  assume "length (mapKeys (nodes s)) < fuel"
  from isDescendant_returns [OF assms(2) this, of b a]
  show "linkNodes fuel a b s \<noteq> None"
    by (auto simp: linkNodes_def Let_def split: option.splits bool.splits)
next
  assume "length (mapKeys (nodes s)) < fuel \<and> (b, a) \<in> (edgeRel (nodes s))\<^sup>+"
  with isDescendant_returns [OF assms(2), of fuel b a]
  show "linkNodes fuel a b s = Some s"
    by (auto simp: linkNodes_def Let_def split: option.splits bool.splits)
qed

lemma edgeRel_entries:
  "edgeRel m = set (concat (map (\<lambda>(k, n). map (Pair k) (childList n)) (DAList.impl_of m)))"
  by (auto simp: edgeRel_def lookup_Some_iff)

text \<open>
  Claim C3 as stated fails when a node is stored under a key other than its \<^verbatim>\<open>id\<close>,
  since \<^verbatim>\<open>removeFromParent\<close> writes the node it rewrites under \<^verbatim>\<open>node.id\<close>. Four
  nodes \<^verbatim>\<open>a\<close>, \<^verbatim>\<open>c\<close>, \<^verbatim>\<open>s\<close>, \<^verbatim>\<open>t\<close> are added and \<^verbatim>\<open>updateNode\<close> gives the
  node under \<^verbatim>\<open>a\<close> the id \<^verbatim>\<open>b\<close>; then \<^verbatim>\<open>a\<close> is linked to \<^verbatim>\<open>c\<close> and \<^verbatim>\<open>t\<close>,
  and \<^verbatim>\<open>c\<close> to \<^verbatim>\<open>b\<close>. The adjacency is acyclic. Linking \<^verbatim>\<open>s\<close> to \<^verbatim>\<open>t\<close> detaches
  \<^verbatim>\<open>t\<close> from the node under \<^verbatim>\<open>a\<close> and stores the result under \<^verbatim>\<open>b\<close>, with the
  child \<^verbatim>\<open>c\<close>: a cycle through \<^verbatim>\<open>b\<close> and \<^verbatim>\<open>c\<close>.
\<close>

definition renamedChart :: ChartState where
  "renamedChart =
     updateNode (emptyPartial\<lparr>p_node_id := Some ''b''\<rparr>)
       (selectNode ''a'' False
         (fst (addNode ''t'' Employee 0 0 emptyPartial None
           (fst (addNode ''s'' Employee 0 0 emptyPartial None
             (fst (addNode ''c'' Employee 0 0 emptyPartial None
               (fst (addNode ''a'' Employee 0 0 emptyPartial None initialFields)))))))))"

definition danglingChart :: ChartState where
  "danglingChart =
     the (linkNodes 5 ''c'' ''b''
       (the (linkNodes 5 ''a'' ''t''
         (the (linkNodes 5 ''a'' ''c'' renamedChart)))))"

lemma danglingChart_entries:
  "map (\<lambda>(k, n). (k, node_id n, children n)) (DAList.impl_of (nodes danglingChart)) =
     [(''a'', ''b'', Some [''c'', ''t'']), (''c'', ''c'', Some [''b'']),
      (''s'', ''s'', Some []), (''t'', ''t'', Some [])]"
  by code_simp

lemma cyclic_entries:
  "map (\<lambda>(k, n). (k, node_id n, children n))
     (DAList.impl_of (nodes (the (linkNodes 5 ''s'' ''t'' danglingChart)))) =
     [(''a'', ''b'', Some [''c'', ''t'']), (''c'', ''c'', Some [''b'']),
      (''s'', ''s'', Some [''t'']), (''t'', ''t'', Some []), (''b'', ''b'', Some [''c''])]"
  by code_simp

lemma edgeRel_from_entries:
  "edgeRel m =
   set (concat (map (\<lambda>(k, i, cs). map (Pair k) (case cs of None \<Rightarrow> [] | Some l \<Rightarrow> l))
     (map (\<lambda>(k, n). (k, node_id n, children n)) (DAList.impl_of m))))"
  by (simp add: edgeRel_entries childList_def comp_def case_prod_beta)

theorem linkNodes_cycle_counterexample:
  "acyclic (edgeRel (nodes danglingChart)) \<and>
   linkNodes 5 ''s'' ''t'' danglingChart \<noteq> None \<and>
   (''b'', ''b'') \<in> (edgeRel (nodes (the (linkNodes 5 ''s'' ''t'' danglingChart))))\<^sup>+"
proof -
  have e1: "edgeRel (nodes danglingChart) = {(''a'', ''c''), (''a'', ''t''), (''c'', ''b'')}"
    by (simp add: edgeRel_from_entries danglingChart_entries)
  have a: "acyclic (edgeRel (nodes danglingChart))"
  proof -
    have "acyclic ({} :: (string \<times> string) set)" by (simp add: acyclic_def)
    then show ?thesis unfolding e1 by (simp add: rtrancl_insert)
  qed
  have r: "linkNodes 5 ''s'' ''t'' danglingChart \<noteq> None"
    by code_simp
  have e2: "(''b'', ''c'') \<in> edgeRel (nodes (the (linkNodes 5 ''s'' ''t'' danglingChart)))"
    "(''c'', ''b'') \<in> edgeRel (nodes (the (linkNodes 5 ''s'' ''t'' danglingChart)))"
    by (simp_all add: edgeRel_from_entries cyclic_entries)
  from e2 have "(''b'', ''b'') \<in> (edgeRel (nodes (the (linkNodes 5 ''s'' ''t'' danglingChart))))\<^sup>+"
    by (meson trancl.simps)
  with a r show ?thesis by simp
qed

definition linkedAB :: ChartState where
  "linkedAB = the (linkNodes 3 ''a'' ''b'' twoNodes)"

lemma twoNodes_entries:
  "map (\<lambda>(k, n). (k, node_id n, children n)) (DAList.impl_of (nodes twoNodes)) =
     [(''a'', ''a'', Some []), (''b'', ''b'', Some [])]"
  "linkNodes 3 ''a'' ''b'' twoNodes \<noteq> None"
  "map (\<lambda>(k, n). (k, node_id n, children n)) (DAList.impl_of (nodes linkedAB)) =
     [(''a'', ''a'', Some [''b'']), (''b'', ''b'', Some [])]"
  unfolding linkedAB_def by code_simp+

lemma keyed_from_entries:
  "keyed m = list_all (\<lambda>(k, i, cs). i = k)
     (map (\<lambda>(k, n). (k, node_id n, children n)) (DAList.impl_of m))"
  by (simp add: keyed_def list_all_iff case_prod_beta)

lemma mapKeys_from_entries:
  "mapKeys m = map fst (map (\<lambda>(k, n). (k, node_id n, children n)) (DAList.impl_of m))"
  by (simp add: mapKeys_def comp_def case_prod_beta)

theorem linkNodes_keeps_acyclic_witness:
  "keyed (nodes twoNodes) \<and> acyclic (edgeRel (nodes twoNodes)) \<and>
   reach onlyLinks (\<lambda>p. (0, 0, 0, 0)) (\<lambda>p dx dy. p) twoNodes linkedAB \<and>
   acyclic (edgeRel (nodes linkedAB)) \<and>
   edgeRel (nodes linkedAB) = {(''a'', ''b'')} \<and>
   length (mapKeys (nodes linkedAB)) < 3 \<and>
   linkNodes 3 ''b'' ''a'' linkedAB = Some linkedAB"
proof -
  have k1: "keyed (nodes twoNodes)"
    by (simp add: keyed_from_entries twoNodes_entries)
  have "edgeRel (nodes twoNodes) = {}"
    by (simp add: edgeRel_from_entries twoNodes_entries)
  then have a1: "acyclic (edgeRel (nodes twoNodes))" by (simp add: acyclic_def)
  have step: "exec (\<lambda>p. (0, 0, 0, 0)) (\<lambda>p dx dy. p) 3 (LinkNodes ''a'' ''b'') twoNodes = Some linkedAB"
    using twoNodes_entries(2) by (auto simp: linkedAB_def)
  have r: "reach onlyLinks (\<lambda>p. (0, 0, 0, 0)) (\<lambda>p dx dy. p) twoNodes linkedAB"
    by (rule reach_step [OF reach_start _ step]) (simp add: onlyLinks_def)
  have k2: "keyed (nodes linkedAB)"
    by (simp add: keyed_from_entries twoNodes_entries)
  have e2: "edgeRel (nodes linkedAB) = {(''a'', ''b'')}"
    by (simp add: edgeRel_from_entries twoNodes_entries)
  have l2: "length (mapKeys (nodes linkedAB)) < 3"
    by (simp add: mapKeys_from_entries twoNodes_entries)
  have a2: "acyclic (edgeRel (nodes linkedAB))"
    using linkNodes_keeps_acyclic [OF k1 a1, of "\<lambda>p. (0, 0, 0, 0)" "\<lambda>p dx dy. p" linkedAB] r
    by simp
  have p: "(''a'', ''b'') \<in> (edgeRel (nodes linkedAB))\<^sup>+"
    using e2 by auto
  have "linkNodes 3 ''b'' ''a'' linkedAB = Some linkedAB"
    using linkNodes_keeps_acyclic [OF k2 a2, of "\<lambda>p. (0, 0, 0, 0)" "\<lambda>p dx dy. p" linkedAB 3
        "''b''" "''a''"] l2 p
    by simp
  with k1 a1 r a2 e2 l2 show ?thesis by simp
qed

section \<open>Nodes and positions with the same keys\<close>

text \<open>
  \<open>parity\<close>: the node map and the position map have the same keys. A snapshot is
  well-formed when its two entry arrays have the same keys and every node in it is stored
  under its \<^verbatim>\<open>id\<close>; a store is well-formed when its maps and all the snapshots on
  its stacks are.
\<close>

definition parity :: "ChartState \<Rightarrow> bool" where
  "parity s = (set (mapKeys (nodes s)) = set (mapKeys (nodePositions s)))"

definition snapOk :: "HistorySnapshot \<Rightarrow> bool" where
  "snapOk sn =
     (fst ` set (snap_nodes sn) = fst ` set (snap_positions sn) \<and>
      list_all (\<lambda>(k, n). node_id n = k) (snap_nodes sn))"

definition storeOk :: "ChartState \<Rightarrow> bool" where
  "storeOk s =
     (parity s \<and> keyed (nodes s) \<and> list_all snapOk (undoStack s) \<and> list_all snapOk (redoStack s))"


lemma keys_update [simp]: "set (mapKeys (DAList.update k v m)) = insert k (set (mapKeys m))"
  by (auto simp: mapKeys_lookup DAList.lookup_update split: if_splits)

lemma keys_delete [simp]: "set (mapKeys (DAList.delete k m)) = set (mapKeys m) - {k}"
  by (auto simp: mapKeys_lookup split: if_splits)

lemma keys_empty [simp]: "mapKeys DAList.empty = []"
  by (simp add: mapKeys_def DAList.empty.rep_eq)

lemma keyed_empty [simp]: "keyed DAList.empty"
  by (simp add: keyed_def DAList.empty.rep_eq)













text \<open>A command that leaves the stacks alone keeps the store well-formed when it keeps
  the keys and the identifiers.\<close>

definition sameKeys :: "ChartState \<Rightarrow> ChartState \<Rightarrow> bool" where
  "sameKeys s t =
     (set (mapKeys (nodes t)) = set (mapKeys (nodes s)) \<and>
      set (mapKeys (nodePositions t)) = set (mapKeys (nodePositions s)) \<and> keyed (nodes t))"













lemma sameKeys_refl [simp]: "keyed (nodes s) \<Longrightarrow> sameKeys s s"
  by (simp add: sameKeys_def)

lemma sameKeys_other_fields [simp]:
  "sameKeys s (t\<lparr>drawings := c\<rparr>) = sameKeys s t"
  "sameKeys s (t\<lparr>selectedNodeIds := d\<rparr>) = sameKeys s t"
  "sameKeys s (t\<lparr>selectedDrawingIds := e\<rparr>) = sameKeys s t"
  "sameKeys s (t\<lparr>selectedEdgeId := f\<rparr>) = sameKeys s t"
  "sameKeys s (t\<lparr>panOffset := g\<rparr>) = sameKeys s t"
  "sameKeys s (t\<lparr>clipboard := h\<rparr>) = sameKeys s t"
  "sameKeys s (t\<lparr>undoStack := u\<rparr>) = sameKeys s t"
  "sameKeys s (t\<lparr>redoStack := r\<rparr>) = sameKeys s t"
  by (simp_all add: sameKeys_def)

lemma sameKeys_saveHistory: "keyed (nodes s) \<Longrightarrow> sameKeys s (saveHistory s)"
  by (simp add: sameKeys_def saveHistory_def Let_def)

lemma sameKeys_trans: "sameKeys s t \<Longrightarrow> sameKeys t u \<Longrightarrow> sameKeys s u"
  by (simp add: sameKeys_def)




lemma saveHistory_fields [simp]:
  "nodePositions (saveHistory s) = nodePositions s"
  "drawings (saveHistory s) = drawings s"
  "selectedNodeIds (saveHistory s) = selectedNodeIds s"
  "selectedDrawingIds (saveHistory s) = selectedDrawingIds s"
  "selectedEdgeId (saveHistory s) = selectedEdgeId s"
  "clipboard (saveHistory s) = clipboard s"
  by (simp_all add: saveHistory_def Let_def)

lemma storeOk_selection [simp]:
  "storeOk (s\<lparr>selectedNodeIds := a\<rparr>) = storeOk s"
  "storeOk (s\<lparr>selectedDrawingIds := b\<rparr>) = storeOk s"
  "storeOk (s\<lparr>selectedEdgeId := c\<rparr>) = storeOk s"
  "storeOk (s\<lparr>drawings := d\<rparr>) = storeOk s"
  "storeOk (s\<lparr>clipboard := e\<rparr>) = storeOk s"
  "storeOk (s\<lparr>panOffset := f\<rparr>) = storeOk s"
  by (simp_all add: storeOk_def parity_def)















lemma storeOk_unchanged_maps:
  "storeOk s \<Longrightarrow> sameHistory s t \<Longrightarrow> nodes t = nodes s \<Longrightarrow> nodePositions t = nodePositions s \<Longrightarrow>
   storeOk t"
  by (simp add: storeOk_def sameHistory_def parity_def)











section \<open>Pasting the clipboard\<close>

text \<open>The clipboard items paired with the identifiers drawn for them.\<close>

definition drawnIds :: "(nat \<Rightarrow> string) \<Rightarrow> ClipboardItem list \<Rightarrow> (ClipboardItem \<times> string) list" where
  "drawnIds gen cb = zip cb (map gen [0 ..< length cb])"

text \<open>The pairs of old and new identifier of the nodes on the clipboard, and the new
  identifiers of its nodes and of its drawings.\<close>

fun nodePair :: "ClipboardItem \<times> string \<Rightarrow> (string \<times> string) list" where
  "nodePair (NodeItem nd x y w h, newId) = [(node_id nd, newId)]"
| "nodePair (DrawingItem d x y w h, newId) = []"


text \<open>The new identifier of the clipboard node with the old identifier \<open>c\<close>: of the
  last such node, should several have it.\<close>

definition pastedIdOf :: "(nat \<Rightarrow> string) \<Rightarrow> ClipboardItem list \<Rightarrow> string \<Rightarrow> string option" where
  "pastedIdOf gen cb c = map_of (rev (concat (map nodePair (drawnIds gen cb)))) c"











lemma new_ids_subset: "set (map snd (concat (map nodePair ps))) \<subseteq> set (map snd ps)"
proof (induction ps)
  case Nil
  then show ?case by simp
next
  case (Cons q qs)
  obtain it' n' where q: "q = (it', n')" by (cases q)
  from Cons show ?case by (cases it') (auto simp: q)
qed






lemma selection_updateGroupMembership [simp]:
  "selectedNodeIds (updateGroupMembership g s) = selectedNodeIds s"
  "selectedDrawingIds (updateGroupMembership g s) = selectedDrawingIds s"
  by (auto simp: updateGroupMembership_def split: option.splits)






lemma map_of_rev_distinct:
  assumes "distinct (map fst es)"
  shows "(map_of (rev es) k = Some v) = ((k, v) \<in> set es)"
proof -
  have "distinct (map fst (rev es))" using assms by (simp add: rev_map [symmetric])
  from map_of_eq_Some_iff [OF this] show ?thesis by simp
qed

lemma node_id_remapChildren [simp]: "node_id (remapChildren idMap node) = node_id node"
  by (simp add: remapChildren_def split: option.splits)

lemma ntype_remapChildren [simp]: "ntype (remapChildren idMap node) = ntype node"
  by (simp add: remapChildren_def split: option.splits)


lemma drawnIds_nth:
  "j < length cb \<Longrightarrow> drawnIds gen cb ! j = (cb ! j, gen j)"
  by (simp add: drawnIds_def)









lemma pastedIdOf_item:
  assumes j: "j < length cb" and item: "cb ! j = NodeItem nd x y w h"
    and d: "distinct (map fst (concat (map nodePair (drawnIds gen cb))))"
  shows "pastedIdOf gen cb (node_id nd) = Some (gen j)"
proof -
  have "drawnIds gen cb ! j = (NodeItem nd x y w h, gen j)"
    using drawnIds_nth [OF j, of gen] item by simp
  moreover have "j < length (drawnIds gen cb)" using j by (simp add: drawnIds_def)
  ultimately have "(NodeItem nd x y w h, gen j) \<in> set (drawnIds gen cb)"
    using nth_mem [of j "drawnIds gen cb"] by simp
  then have "(node_id nd, gen j) \<in> set (concat (map nodePair (drawnIds gen cb)))"
    by (auto intro!: bexI [where x = "(NodeItem nd x y w h, gen j)"])
  then show ?thesis
    unfolding pastedIdOf_def by (simp only: map_of_rev_distinct [OF d])
qed







section \<open>Running the layout twice\<close>


text \<open>What \<^verbatim>\<open>sortChildrenByDepartment\<close> does to one node, by the department function
  \<open>d\<close>.\<close>

definition sortNode :: "(string \<Rightarrow> string) \<Rightarrow> ChartNode \<Rightarrow> ChartNode" where
  "sortNode d n =
     (case children n of
        None \<Rightarrow> n
      | Some cs \<Rightarrow> if length cs > 1 then n\<lparr>children := Some (sort_key d cs)\<rparr> else n)"



lemma sortNode_fields [simp]:
  "node_id (sortNode d n) = node_id n"
  "ntype (sortNode d n) = ntype n"
  "department (sortNode d n) = department n"
  "name (sortNode d n) = name n"
  "set (childList (sortNode d n)) = set (childList n)"
  by (auto simp: sortNode_def childList_def split: option.splits)







































































text \<open>
  Claim C7 as stated fails when a node is stored under a key other than its \<^verbatim>\<open>id\<close>:
  the anchors of step 0.5 and the positions of step 4 go by \<^verbatim>\<open>node.id\<close>. Below, the
  note has the \<^verbatim>\<open>id\<close> of the employee \<^verbatim>\<open>e\<close>, whose centre lies in the area \<^verbatim>\<open>g\<close>.
  The first run moves \<^verbatim>\<open>e\<close> with the area, out of the rectangle the area then has; the
  second run finds no anchor and leaves \<^verbatim>\<open>e\<close> where the tree layout puts it.
\<close>




end
